theory Spec2Isabelle
  imports Complex_Main
begin

section \<open>Wallet gas monitor: one check cycle of \<open>index.js\<close>\<close>

text \<open>
  The program is a single script. Its core is \<open>runCheck\<close>: fetch prices, read one balance
  per configured chain, evaluate each reading against the threshold and the per-key
  cooldown, send one Telegram message when some reading is eligible, save the cooldown
  state and write a status file.

  Conventions of the embedding:
  \<^item> a JavaScript number is a \<open>real\<close> (rounding, \<open>NaN\<close> and infinities are not modelled);
    raw chain balances (wei, lamports) are natural numbers;
  \<^item> \<open>null\<close>/\<open>undefined\<close> is \<open>None\<close>;
  \<^item> a call that may throw or reject returns \<open>string + 'a\<close>, with \<open>Inl\<close> the error message;
  \<^item> every function that logs or talks to the outside returns, next to its value, the list
    of events it caused, in program order;
  \<^item> the outside world (HTTP, RPC endpoints, the clock, what a file write does) is a
    record of oracles, \<open>env\<close>; the two files the script owns are the record \<open>files\<close>.
\<close>

subsection \<open>Configuration (\<open>config.json\<close>)\<close>

record chain_cfg =
  name :: string
  symbol :: string
  rpc :: string
  coingecko_id :: string

record telegram_cfg =
  bot_token :: string
  chat_id :: string

text \<open>
  \<open>chains\<close> is \<open>Object.entries(config.chains)\<close>: the keys of a JavaScript object are
  pairwise different, which theorems that need it assume as \<open>distinct (map fst (chains cfg))\<close>.
\<close>

record config =
  threshold_usd :: real
  check_interval_minutes :: real
  alert_cooldown_hours :: real
  evm_address :: string
  solana_address :: string
  chains :: "(string \<times> chain_cfg) list"
  solana :: chain_cfg
  telegram :: telegram_cfg

subsection \<open>Values the cycle handles\<close>

text \<open>One entry of the price response, \<open>{ usd: number }\<close>; \<open>usd\<close> may be missing.\<close>

record quote =
  usd :: "real option"

text \<open>
  The parsed price response. \<open>PricesNull\<close> is the JSON value \<open>null\<close>, on which a property
  read throws; every other response is an object from identifiers to entries (an identifier
  that is missing, or whose entry is \<open>null\<close>, maps to \<open>None\<close>).
\<close>

datatype prices_json = PricesNull | PricesObj "string \<rightharpoonup> quote"

record status_entry =
  s_chain :: string
  s_symbol :: string
  s_balance :: "real option"
  s_valueUSD :: "real option"
  belowThreshold :: bool

record status_data =
  timestamp :: string
  prices :: prices_json
  balances :: "status_entry list"

record reading =
  chain :: string
  symbol :: string
  balance :: "real option"
  price :: real
  valueUSD :: "real option"
  address :: string
  key :: string
  error :: "string option"

text \<open>The cooldown state, \<open>{ lastAlerts: { key: timestamp } }\<close>.\<close>

record app_state =
  lastAlerts :: "string \<rightharpoonup> real"

text \<open>
  The value of the variable \<open>state\<close> of \<open>runCheck\<close>. It comes out of \<open>JSON.parse\<close> unchecked, so
  it need not be a cooldown state:
  \<^item> \<open>JsonNull\<close> is the JSON value \<open>null\<close>, on which \<open>state.lastAlerts\<close> throws;
  \<^item> \<open>JsonNoAlerts\<close> is any other value whose \<open>lastAlerts\<close> is \<open>undefined\<close> or \<open>null\<close> (the object
    \<open>{}\<close>, a number, a string, an array), on which \<open>state.lastAlerts[key]\<close> throws;
  \<^item> \<open>JsonState\<close> is an object whose \<open>lastAlerts\<close> is an object from keys to numbers.

  A \<open>lastAlerts\<close> that is neither missing nor such an object (a primitive, or an object with
  entries that are not numbers) is not modelled.
\<close>

datatype state_value = JsonNull | JsonNoAlerts | JsonState app_state

text \<open>
  The alert text, kept structured: one block per reading (chain, balance, symbol, value,
  shortened address), then the threshold and the local time of the check. The number
  formatting of \<open>fmtBal\<close> and \<open>fmtUSD\<close> is not modelled.
\<close>

record alert_message =
  blocks :: "(string \<times> real option \<times> string \<times> real option \<times> string) list"
  msg_threshold :: real
  checked :: string

subsection \<open>Files, events and the environment\<close>

text \<open>
  What \<open>state.json\<close> holds: text that \<open>JSON.parse\<close> rejects (an empty or cut-off file among
  others), or the text of a JSON value.
\<close>

datatype file_content = Unparsable | StateJson state_value

text \<open>What \<open>latest-status.json\<close> holds: a cut-off text, or a whole snapshot.\<close>

datatype status_content = StatusCutOff | StatusJson status_data

text \<open>\<open>state_json = None\<close>: the file is missing or cannot be read.\<close>

record files =
  state_json :: "file_content option"
  latest_status :: "status_content option"

text \<open>
  What one call of \<open>fs.writeFileSync\<close> does. It opens the file for writing, which empties it,
  and then writes. \<open>WriteFails e left\<close>: the call throws \<open>e\<close>, and \<open>left\<close> is what the file holds
  afterwards (what it held before when the open itself failed; an empty or cut-off text
  when the failure came after the open; \<open>None\<close> when there is no readable file).
\<close>

datatype 'c write_result = Written | WriteFails string "'c option"

datatype log_line =
    RunningCheck string
  | PricesLine prices_json
  | FailedToFetchPrices string
  | ErrorChecking string string
  | ErrorCheckingSolana string
  | BalancesHeader
  | BalanceLine bool string "real option" string "real option"
  | CooldownActive string
  | AlertsSent nat
  | AllOk
  | TelegramResponse string
  | TelegramSendError string

datatype event =
    Console log_line
  | HttpsGet string
  | EvmGetBalance string string
  | SolGetBalance string string
  | ReadStateFile
  | TelegramPost string string alert_message
  | WriteStateFile state_value
  | WriteStatusFile status_data

text \<open>
  The oracles of one cycle. \<open>https_get url\<close> is the outcome of \<open>fetchJSON\<close> (network or parse
  error, or the parsed body). \<open>evm_rpc chainKey\<close> is the outcome, in the loop iteration for
  that chain, of creating the provider and awaiting \<open>getBalance\<close> (an error message, or the
  balance in wei); it is indexed by the iteration rather than by the endpoint because two
  calls to one endpoint need not answer alike. \<open>sol_rpc\<close> is the same for the Solana reader
  (lamports). \<open>https_post\<close> is \<open>Inl\<close> when the request emits \<open>error\<close> and \<open>Inr\<close> the response
  body otherwise. \<open>write_state\<close> and \<open>write_status\<close> say what \<open>fs.writeFileSync\<close> does on
  that file.
\<close>

record env =
  iso_timestamp :: string
  date_now :: real
  locale_time :: string
  https_get :: "string \<Rightarrow> string + prices_json"
  evm_rpc :: "string \<Rightarrow> string + nat"
  sol_rpc :: "string + nat"
  https_post :: "string \<Rightarrow> string \<Rightarrow> alert_message \<Rightarrow> string + string"
  write_state :: "file_content write_result"
  write_status :: "status_content write_result"

subsection \<open>\<open>loadState\<close> and \<open>saveState\<close>\<close>

definition readFileSync :: "files \<Rightarrow> string + file_content" where
  "readFileSync fs =
     (case state_json fs of None \<Rightarrow> Inl ''ENOENT'' | Some c \<Rightarrow> Inr c)"

definition JSON_parse :: "file_content \<Rightarrow> string + state_value" where
  "JSON_parse c =
     (case c of Unparsable \<Rightarrow> Inl ''SyntaxError'' | StateJson v \<Rightarrow> Inr v)"

text \<open>The value that parses is returned as it is; nothing checks its shape.\<close>

definition loadState :: "files \<Rightarrow> state_value \<times> event list" where
  "loadState fs =
     (case readFileSync fs of
        Inl e \<Rightarrow> (JsonState \<lparr>lastAlerts = Map.empty\<rparr>, [ReadStateFile])
      | Inr c \<Rightarrow>
          (case JSON_parse c of
             Inl e \<Rightarrow> (JsonState \<lparr>lastAlerts = Map.empty\<rparr>, [ReadStateFile])
           | Inr v \<Rightarrow> (v, [ReadStateFile])))"

text \<open>
  The functions that write return whether the write threw, and the files afterwards in
  either case.
\<close>

definition saveState ::
  "env \<Rightarrow> state_value \<Rightarrow> files \<Rightarrow> (string + unit) \<times> files \<times> event list" where
  "saveState en v fs =
     (case write_state en of
        WriteFails e left \<Rightarrow> (Inl e, fs\<lparr>state_json := left\<rparr>, [WriteStateFile v])
      | Written \<Rightarrow> (Inr (), fs\<lparr>state_json := Some (StateJson v)\<rparr>, [WriteStateFile v]))"

subsection \<open>\<open>getPrices\<close>\<close>

text \<open>\<open>ids.add\<close> on a JavaScript \<open>Set\<close>: insertion order, first occurrence kept.\<close>

definition set_add :: "string list \<Rightarrow> string \<Rightarrow> string list" where
  "set_add ids x = (if x \<in> set ids then ids else ids @ [x])"

fun join_comma :: "string list \<Rightarrow> string" where
  "join_comma [] = ''''"
| "join_comma [x] = x"
| "join_comma (x # y # ys) = x @ '','' @ join_comma (y # ys)"

definition price_ids :: "config \<Rightarrow> string list" where
  "price_ids cfg =
     set_add (foldl set_add [] (map (\<lambda>kc. coingecko_id (snd kc)) (chains cfg)))
       (coingecko_id (solana cfg))"

definition price_url :: "config \<Rightarrow> string" where
  "price_url cfg =
     ''https://api.coingecko.com/api/v3/simple/price?ids='' @ join_comma (price_ids cfg)
       @ ''&vs_currencies=usd''"

definition getPrices :: "config \<Rightarrow> env \<Rightarrow> (string + prices_json) \<times> event list" where
  "getPrices cfg en = (https_get en (price_url cfg), [HttpsGet (price_url cfg)])"

subsection \<open>The balance readers\<close>

text \<open>\<open>x || 0\<close> on an optional number: \<open>undefined\<close> and \<open>0\<close> are falsy.\<close>

definition or_zero :: "real option \<Rightarrow> real" where
  "or_zero x = (case x of None \<Rightarrow> 0 | Some v \<Rightarrow> (if v = 0 then 0 else v))"

text \<open>\<open>prices[id]?.usd || 0\<close>; the property read throws a \<open>TypeError\<close> on \<open>null\<close>.\<close>

definition price_of :: "prices_json \<Rightarrow> string \<Rightarrow> string + real" where
  "price_of ps i =
     (case ps of
        PricesNull \<Rightarrow> Inl ''Cannot read properties of null''
      | PricesObj m \<Rightarrow>
          Inr (or_zero (case m i of None \<Rightarrow> None | Some q \<Rightarrow> usd q)))"

text \<open>The body of the \<open>for\<close> loop of \<open>checkEVMBalances\<close>: the \<open>try\<close> block and its \<open>catch\<close>.\<close>

definition evm_failed :: "config \<Rightarrow> string \<Rightarrow> chain_cfg \<Rightarrow> string \<Rightarrow> reading" where
  "evm_failed cfg chainKey c msg =
     \<lparr>chain = name c, symbol = chain_cfg.symbol c, balance = None, price = 0,
      valueUSD = None, address = evm_address cfg, key = ''evm_'' @ chainKey,
      error = Some msg\<rparr>"

definition checkEVMChain ::
  "config \<Rightarrow> env \<Rightarrow> prices_json \<Rightarrow> string \<Rightarrow> chain_cfg \<Rightarrow> reading \<times> event list" where
  "checkEVMChain cfg en ps chainKey c =
     (case evm_rpc en chainKey of
        Inl msg \<Rightarrow>
          (evm_failed cfg chainKey c msg,
           [EvmGetBalance (rpc c) (evm_address cfg), Console (ErrorChecking (name c) msg)])
      | Inr wei \<Rightarrow>
          (let balanceNum = real wei / 10 ^ 18 in
           case price_of ps (coingecko_id c) of
             Inl msg \<Rightarrow>
               (evm_failed cfg chainKey c msg,
                [EvmGetBalance (rpc c) (evm_address cfg), Console (ErrorChecking (name c) msg)])
           | Inr p \<Rightarrow>
               (\<lparr>chain = name c, symbol = chain_cfg.symbol c, balance = Some balanceNum,
                 price = p, valueUSD = Some (balanceNum * p), address = evm_address cfg,
                 key = ''evm_'' @ chainKey, error = None\<rparr>,
                [EvmGetBalance (rpc c) (evm_address cfg)])))"

fun checkEVMLoop ::
  "config \<Rightarrow> env \<Rightarrow> prices_json \<Rightarrow> (string \<times> chain_cfg) list \<Rightarrow> reading list \<Rightarrow> event list
     \<Rightarrow> reading list \<times> event list" where
  "checkEVMLoop cfg en ps [] results evs = (results, evs)"
| "checkEVMLoop cfg en ps ((chainKey, c) # rest) results evs =
     (case checkEVMChain cfg en ps chainKey c of
        (r, ev) \<Rightarrow> checkEVMLoop cfg en ps rest (results @ [r]) (evs @ ev))"

definition checkEVMBalances :: "config \<Rightarrow> env \<Rightarrow> prices_json \<Rightarrow> reading list \<times> event list" where
  "checkEVMBalances cfg en ps = checkEVMLoop cfg en ps (chains cfg) [] []"

definition LAMPORTS_PER_SOL :: real where
  "LAMPORTS_PER_SOL = 1000000000"

definition sol_failed :: "config \<Rightarrow> string \<Rightarrow> reading" where
  "sol_failed cfg msg =
     \<lparr>chain = name (solana cfg), symbol = chain_cfg.symbol (solana cfg), balance = None,
      price = 0, valueUSD = None, address = solana_address cfg, key = ''solana'',
      error = Some msg\<rparr>"

definition checkSolanaBalance :: "config \<Rightarrow> env \<Rightarrow> prices_json \<Rightarrow> reading \<times> event list" where
  "checkSolanaBalance cfg en ps =
     (case sol_rpc en of
        Inl msg \<Rightarrow>
          (sol_failed cfg msg,
           [SolGetBalance (rpc (solana cfg)) (solana_address cfg),
            Console (ErrorCheckingSolana msg)])
      | Inr lamports \<Rightarrow>
          (let balanceNum = real lamports / LAMPORTS_PER_SOL in
           case price_of ps (coingecko_id (solana cfg)) of
             Inl msg \<Rightarrow>
               (sol_failed cfg msg,
                [SolGetBalance (rpc (solana cfg)) (solana_address cfg),
                 Console (ErrorCheckingSolana msg)])
           | Inr p \<Rightarrow>
               (\<lparr>chain = name (solana cfg), symbol = chain_cfg.symbol (solana cfg),
                 balance = Some balanceNum, price = p, valueUSD = Some (balanceNum * p),
                 address = solana_address cfg, key = ''solana'', error = None\<rparr>,
                [SolGetBalance (rpc (solana cfg)) (solana_address cfg)])))"

text \<open>\<open>allResults = [...evmResults, solResult]\<close>.\<close>

definition allResults :: "config \<Rightarrow> env \<Rightarrow> prices_json \<Rightarrow> reading list" where
  "allResults cfg en ps =
     fst (checkEVMBalances cfg en ps) @ [fst (checkSolanaBalance cfg en ps)]"

subsection \<open>\<open>sendTelegramAlert\<close>\<close>

definition sendTelegramAlert ::
  "config \<Rightarrow> env \<Rightarrow> alert_message \<Rightarrow> (string + unit) \<times> event list" where
  "sendTelegramAlert cfg en msg =
     (let botToken = bot_token (telegram cfg); chatId = chat_id (telegram cfg) in
      case https_post en botToken chatId msg of
        Inl e \<Rightarrow> (Inl e, [TelegramPost botToken chatId msg, Console (TelegramSendError e)])
      | Inr body \<Rightarrow>
          (Inr (), [TelegramPost botToken chatId msg, Console (TelegramResponse (take 200 body))]))"

subsection \<open>\<open>runCheck\<close>\<close>

text \<open>\<open>config.alert_cooldown_hours * 60 * 60 * 1000\<close>.\<close>

definition cooldownMs :: "config \<Rightarrow> real" where
  "cooldownMs cfg = alert_cooldown_hours cfg * 60 * 60 * 1000"

text \<open>\<open>r.valueUSD !== null && r.valueUSD < config.threshold_usd\<close>.\<close>

definition isLow :: "config \<Rightarrow> reading \<Rightarrow> bool" where
  "isLow cfg r = (case valueUSD r of None \<Rightarrow> False | Some v \<Rightarrow> v < threshold_usd cfg)"

text \<open>
  The evaluation loop (\<open>for (const r of allResults)\<close>): \<open>low\<close> is \<open>lowBalances\<close>, \<open>st\<close> the state
  object that the loop mutates; the third component is what the loop prints.
\<close>

fun evaluate ::
  "config \<Rightarrow> real \<Rightarrow> real \<Rightarrow> reading list \<Rightarrow> reading list \<Rightarrow> app_state
     \<Rightarrow> reading list \<times> app_state \<times> event list" where
  "evaluate cfg now cdMs [] low st = (low, st, [])"
| "evaluate cfg now cdMs (r # rs) low st =
     (let line = Console (BalanceLine (isLow cfg r) (chain r) (balance r) (symbol r)
                   (valueUSD r))
      in if isLow cfg r then
           (let lastAlert = or_zero (lastAlerts st (key r)) in
            if now - lastAlert > cdMs then
              (case evaluate cfg now cdMs rs (low @ [r])
                      (st\<lparr>lastAlerts := (lastAlerts st)(key r \<mapsto> now)\<rparr>) of
                 (low', st', evs) \<Rightarrow> (low', st', line # evs))
            else
              (case evaluate cfg now cdMs rs low st of
                 (low', st', evs) \<Rightarrow>
                   (low', st', line # Console (CooldownActive (chain r)) # evs)))
         else
           (case evaluate cfg now cdMs rs low st of
              (low', st', evs) \<Rightarrow> (low', st', line # evs)))"

text \<open>
  The same loop on a state value that has no \<open>lastAlerts\<close> object. The balance line of each
  reading is printed as before; at the first reading below the threshold,
  \<open>state.lastAlerts[r.key]\<close> throws a \<open>TypeError\<close>, which leaves the loop and \<open>runCheck\<close>. When
  no reading is below the threshold the loop ends with an empty alert list and has not
  touched the state. The first component is the error, if one was thrown.
\<close>

fun evaluateNoAlerts :: "config \<Rightarrow> string \<Rightarrow> reading list \<Rightarrow> string option \<times> event list" where
  "evaluateNoAlerts cfg msg [] = (None, [])"
| "evaluateNoAlerts cfg msg (r # rs) =
     (let line = Console (BalanceLine (isLow cfg r) (chain r) (balance r) (symbol r)
                   (valueUSD r))
      in if isLow cfg r then (Some msg, [line])
         else (case evaluateNoAlerts cfg msg rs of (res, evs) \<Rightarrow> (res, line # evs)))"

text \<open>
  The loop on the value that \<open>loadState\<close> returned, whatever its shape: the alert list and the
  state after the loop, or the error that left it.
\<close>

definition evaluateState ::
  "config \<Rightarrow> real \<Rightarrow> real \<Rightarrow> reading list \<Rightarrow> state_value
     \<Rightarrow> (string + reading list \<times> state_value) \<times> event list" where
  "evaluateState cfg now cdMs rs v =
     (case v of
        JsonState st \<Rightarrow>
          (case evaluate cfg now cdMs rs [] st of
             (low, st', evs) \<Rightarrow> (Inr (low, JsonState st'), evs))
      | JsonNull \<Rightarrow>
          (case evaluateNoAlerts cfg ''Cannot read properties of null'' rs of
             (Some e, evs) \<Rightarrow> (Inl e, evs)
           | (None, evs) \<Rightarrow> (Inr ([], JsonNull), evs))
      | JsonNoAlerts \<Rightarrow>
          (case evaluateNoAlerts cfg ''Cannot read properties of undefined'' rs of
             (Some e, evs) \<Rightarrow> (Inl e, evs)
           | (None, evs) \<Rightarrow> (Inr ([], JsonNoAlerts), evs)))"

definition shortAddr :: "string \<Rightarrow> string" where
  "shortAddr a =
     (if length a > 20 then take 6 a @ ''...'' @ drop (length a - 4) a else a)"

definition buildMessage :: "config \<Rightarrow> env \<Rightarrow> reading list \<Rightarrow> alert_message" where
  "buildMessage cfg en lowBalances =
     \<lparr>blocks = map (\<lambda>r. (chain r, balance r, symbol r, valueUSD r, shortAddr (address r)))
                 lowBalances,
      msg_threshold = threshold_usd cfg,
      checked = locale_time en\<rparr>"

definition statusData :: "config \<Rightarrow> env \<Rightarrow> prices_json \<Rightarrow> reading list \<Rightarrow> status_data" where
  "statusData cfg en ps results =
     \<lparr>timestamp = iso_timestamp en,
      prices = ps,
      balances = map (\<lambda>r. \<lparr>s_chain = chain r, s_symbol = symbol r, s_balance = balance r,
                            s_valueUSD = valueUSD r, belowThreshold = isLow cfg r\<rparr>) results\<rparr>"

definition writeStatus ::
  "env \<Rightarrow> status_data \<Rightarrow> files \<Rightarrow> (string + unit) \<times> files \<times> event list" where
  "writeStatus en sd fs =
     (case write_status en of
        WriteFails e left \<Rightarrow> (Inl e, fs\<lparr>latest_status := left\<rparr>, [WriteStatusFile sd])
      | Written \<Rightarrow> (Inr (), fs\<lparr>latest_status := Some (StatusJson sd)\<rparr>, [WriteStatusFile sd]))"

text \<open>
  The result of one call: \<open>outcome = None\<close> when the promise of \<open>runCheck\<close> resolves,
  \<open>Some e\<close> when it rejects with \<open>e\<close>; the files afterwards; the events in order.
\<close>

record cycle_result =
  outcome :: "string option"
  files_after :: files
  events :: "event list"

text \<open>
  The \<open>if (lowBalances.length > 0) ... else ...\<close> statement: send and save, or only save.
  Nothing here is inside a \<open>try\<close>, so a rejected send or a throwing write leaves the
  statement at once.
\<close>

definition alertAndSave ::
  "config \<Rightarrow> env \<Rightarrow> reading list \<Rightarrow> state_value \<Rightarrow> files
     \<Rightarrow> (string + unit) \<times> files \<times> event list" where
  "alertAndSave cfg en lowBalances v fs =
     (if length lowBalances > 0 then
        (case sendTelegramAlert cfg en (buildMessage cfg en lowBalances) of
           (Inl e, ev1) \<Rightarrow> (Inl e, fs, ev1)
         | (Inr u, ev1) \<Rightarrow>
             (case saveState en v fs of
                (Inl e, fs1, ev2) \<Rightarrow> (Inl e, fs1, ev1 @ ev2)
              | (Inr u', fs1, ev2) \<Rightarrow>
                  (Inr (), fs1, ev1 @ ev2 @ [Console (AlertsSent (length lowBalances))])))
      else
        (case saveState en v fs of
           (Inl e, fs1, ev2) \<Rightarrow> (Inl e, fs1, ev2)
         | (Inr u', fs1, ev2) \<Rightarrow> (Inr (), fs1, ev2 @ [Console AllOk])))"

definition runCheck :: "config \<Rightarrow> env \<Rightarrow> files \<Rightarrow> cycle_result" where
  "runCheck cfg en fs =
     (let ev0 = [Console (RunningCheck (iso_timestamp en))] in
      case getPrices cfg en of
        (Inl err, ev1) \<Rightarrow>
          \<lparr>outcome = None, files_after = fs,
           events = ev0 @ ev1 @ [Console (FailedToFetchPrices err)]\<rparr>
      | (Inr ps, ev1) \<Rightarrow>
          (let ev2 = ev0 @ ev1 @ [Console (PricesLine ps)]
                       @ snd (checkEVMBalances cfg en ps) @ snd (checkSolanaBalance cfg en ps);
               results = allResults cfg en ps;
               loaded = loadState fs;
               now = date_now en;
               ev3 = ev2 @ snd loaded @ [Console BalancesHeader]
           in case evaluateState cfg now (cooldownMs cfg) results (fst loaded) of
                (Inl e, ev4) \<Rightarrow>
                  \<lparr>outcome = Some e, files_after = fs, events = ev3 @ ev4\<rparr>
              | (Inr (lowBalances, v), ev4) \<Rightarrow>
                  (case alertAndSave cfg en lowBalances v fs of
                     (Inl e, fs1, ev5) \<Rightarrow>
                       \<lparr>outcome = Some e, files_after = fs1, events = ev3 @ ev4 @ ev5\<rparr>
                   | (Inr u, fs1, ev5) \<Rightarrow>
                       (case writeStatus en (statusData cfg en ps results) fs1 of
                          (Inl e, fs2, ev6) \<Rightarrow>
                            \<lparr>outcome = Some e, files_after = fs2,
                             events = ev3 @ ev4 @ ev5 @ ev6\<rparr>
                        | (Inr u', fs2, ev6) \<Rightarrow>
                            \<lparr>outcome = None, files_after = fs2,
                             events = ev3 @ ev4 @ ev5 @ ev6\<rparr>))))"

section \<open>Notions used to state the properties\<close>

text \<open>
  The test of the loop body on a reading, against a given state: below the threshold, and
  the cooldown elapsed.
\<close>

definition eligible :: "config \<Rightarrow> real \<Rightarrow> real \<Rightarrow> app_state \<Rightarrow> reading \<Rightarrow> bool" where
  "eligible cfg now cdMs st r \<longleftrightarrow> isLow cfg r \<and> now - or_zero (lastAlerts st (key r)) > cdMs"

text \<open>
  The events by which a cycle acts on the outside: the Telegram request and the two file
  writes. \<open>outputs\<close> keeps those, in order.
\<close>

fun is_output :: "event \<Rightarrow> bool" where
  "is_output (TelegramPost tok cid msg) = True"
| "is_output (WriteStateFile st) = True"
| "is_output (WriteStatusFile sd) = True"
| "is_output e = False"

definition outputs :: "event list \<Rightarrow> event list" where
  "outputs evs = filter is_output evs"

text \<open>The cooldown entries that a state value holds: none when it has no \<open>lastAlerts\<close> object.\<close>

definition alerts :: "state_value \<Rightarrow> (string \<rightharpoonup> real)" where
  "alerts v = (case v of JsonState st \<Rightarrow> lastAlerts st | JsonNull \<Rightarrow> Map.empty
               | JsonNoAlerts \<Rightarrow> Map.empty)"

text \<open>
  A concrete configuration and environment, used to run the model: two EVM chains that
  share one price identifier, and Solana. The Ethereum wallet holds 0.01 ETH (20 USD, below
  the threshold of 50 USD); the other two are above it.
\<close>

definition ex_eth :: chain_cfg where
  "ex_eth = \<lparr>name = ''Ethereum'', symbol = ''ETH'', rpc = ''https://eth.example'',
             coingecko_id = ''ethereum''\<rparr>"

definition ex_base :: chain_cfg where
  "ex_base = \<lparr>name = ''Base'', symbol = ''ETH'', rpc = ''https://base.example'',
              coingecko_id = ''ethereum''\<rparr>"

definition ex_sol :: chain_cfg where
  "ex_sol = \<lparr>name = ''Solana'', symbol = ''SOL'', rpc = ''https://sol.example'',
             coingecko_id = ''solana''\<rparr>"

definition ex_cfg :: config where
  "ex_cfg = \<lparr>threshold_usd = 50, check_interval_minutes = 30, alert_cooldown_hours = 6,
             evm_address = ''0xAbC'', solana_address = ''So1'',
             chains = [(''ethereum'', ex_eth), (''base'', ex_base)],
             solana = ex_sol,
             telegram = \<lparr>bot_token = ''tok'', chat_id = ''42''\<rparr>\<rparr>"

definition ex_prices :: prices_json where
  "ex_prices = PricesObj [''ethereum'' \<mapsto> \<lparr>usd = Some 2000\<rparr>, ''solana'' \<mapsto> \<lparr>usd = Some 100\<rparr>]"

definition ex_env :: env where
  "ex_env = \<lparr>iso_timestamp = ''2023-11-14T22:13:20.000Z'', date_now = 1700000000000,
             locale_time = ''14/11/2023, 23:13:20'',
             https_get = (\<lambda>url. Inr ex_prices),
             evm_rpc = (\<lambda>k. if k = ''ethereum'' then Inr 10000000000000000
                             else Inr 1000000000000000000),
             sol_rpc = Inr 2000000000,
             https_post = (\<lambda>tok cid msg. Inr ''ok''),
             write_state = Written, write_status = Written\<rparr>"

definition ex_files :: files where
  "ex_files = \<lparr>state_json = None, latest_status = None\<rparr>"

text \<open>
  The three readings of that cycle.
\<close>

definition ex_eth_reading :: reading where
  "ex_eth_reading = \<lparr>chain = ''Ethereum'', symbol = ''ETH'', balance = Some (1 / 100), price = 2000,
      valueUSD = Some 20, address = ''0xAbC'', key = ''evm_ethereum'', error = None\<rparr>"

definition ex_base_reading :: reading where
  "ex_base_reading = \<lparr>chain = ''Base'', symbol = ''ETH'', balance = Some 1, price = 2000,
      valueUSD = Some 2000, address = ''0xAbC'', key = ''evm_base'', error = None\<rparr>"

definition ex_sol_reading :: reading where
  "ex_sol_reading = \<lparr>chain = ''Solana'', symbol = ''SOL'', balance = Some 2, price = 100,
      valueUSD = Some 200, address = ''So1'', key = ''solana'', error = None\<rparr>"

text \<open>
  Variants of the environment with one collaborator failing, and of the configuration with
  a cooldown of one million hours (longer than the time since the epoch).
\<close>

definition env_send_fails :: env where
  "env_send_fails = ex_env\<lparr>https_post := (\<lambda>tok cid msg. Inl ''ECONNRESET'')\<rparr>"

definition env_save_fails :: env where
  "env_save_fails = ex_env\<lparr>write_state := WriteFails ''EACCES'' None\<rparr>"

definition env_status_fails :: env where
  "env_status_fails = ex_env\<lparr>write_status := WriteFails ''ENOSPC'' (Some StatusCutOff)\<rparr>"

definition env_price_fails :: env where
  "env_price_fails = ex_env\<lparr>https_get := (\<lambda>url. Inl ''ETIMEDOUT'')\<rparr>"

definition env_eth_fails :: env where
  "env_eth_fails = ex_env\<lparr>evm_rpc := (\<lambda>k. if k = ''ethereum'' then Inl ''timeout''
                                          else Inr 1000000000000000000)\<rparr>"

definition cx_cfg :: config where
  "cx_cfg = ex_cfg\<lparr>alert_cooldown_hours := 1000000\<rparr>"

text \<open>
  Further variants: the Solana endpoint failing, a state file with earlier entries (one of
  them for a chain no longer configured), a state file that holds \<open>{}\<close>, one that holds the
  empty map, and the reading of the failing Ethereum endpoint.
\<close>

definition env_sol_fails :: env where
  "env_sol_fails = ex_env\<lparr>sol_rpc := Inl ''429 Too Many Requests''\<rparr>"

definition ex_files_prior :: files where
  "ex_files_prior =
     \<lparr>state_json =
        Some (StateJson (JsonState \<lparr>lastAlerts = [''evm_gone'' \<mapsto> 5, ''solana'' \<mapsto> 7]\<rparr>)),
      latest_status = None\<rparr>"

definition ex_files_no_alerts :: files where
  "ex_files_no_alerts = \<lparr>state_json = Some (StateJson JsonNoAlerts), latest_status = None\<rparr>"

definition ex_files_empty_map :: files where
  "ex_files_empty_map =
     \<lparr>state_json = Some (StateJson (JsonState \<lparr>lastAlerts = Map.empty\<rparr>)), latest_status = None\<rparr>"

definition ex_failed_reading :: reading where
  "ex_failed_reading = \<lparr>chain = ''Ethereum'', symbol = ''ETH'', balance = None, price = 0,
      valueUSD = None, address = ''0xAbC'', key = ''evm_ethereum'', error = Some ''timeout''\<rparr>"

section \<open>Lemmas about the readers and the evaluation loop\<close>

text \<open>
  The readings of \<open>checkEVMBalances\<close>: one per configured chain, in order, each computed
  from its own chain alone.
\<close>

lemma checkEVMLoop_fst:
  "fst (checkEVMLoop cfg en ps cs results evs) =
     results @ map (\<lambda>kc. fst (checkEVMChain cfg en ps (fst kc) (snd kc))) cs"
  by (induction cs arbitrary: results evs) (auto split: prod.splits)

lemma checkEVMBalances_fst:
  "fst (checkEVMBalances cfg en ps) =
     map (\<lambda>kc. fst (checkEVMChain cfg en ps (fst kc) (snd kc))) (chains cfg)"
  by (simp add: checkEVMBalances_def checkEVMLoop_fst)

lemma key_checkEVMChain: "key (fst (checkEVMChain cfg en ps k c)) = ''evm_'' @ k"
  by (simp add: checkEVMChain_def evm_failed_def Let_def split: sum.splits)

lemma key_checkSolanaBalance: "key (fst (checkSolanaBalance cfg en ps)) = ''solana''"
  by (simp add: checkSolanaBalance_def sol_failed_def Let_def split: sum.splits)

lemma map_key_allResults:
  "map key (allResults cfg en ps) = map (\<lambda>kc. ''evm_'' @ fst kc) (chains cfg) @ [''solana'']"
  by (simp add: allResults_def checkEVMBalances_fst key_checkEVMChain key_checkSolanaBalance
      comp_def)

lemma distinct_keys_allResults:
  assumes "distinct (map fst (chains cfg))"
  shows "distinct (map key (allResults cfg en ps))"
proof -
  have inj: "inj (\<lambda>k::string. ''evm_'' @ k)"
    by (rule injI) simp
  have "map (\<lambda>kc. ''evm_'' @ fst kc) (chains cfg) = map (\<lambda>k. ''evm_'' @ k) (map fst (chains cfg))"
    by simp
  moreover have "distinct (map (\<lambda>k::string. ''evm_'' @ k) (map fst (chains cfg)))"
    using assms inj by (simp add: distinct_map inj_on_def del: map_map)
  moreover have "''solana'' \<notin> set (map (\<lambda>kc. ''evm_'' @ fst kc) (chains cfg))"
    by auto
  ultimately show ?thesis
    by (simp add: map_key_allResults del: map_map)
qed

text \<open>
  One iteration of the evaluation loop, by cases on the test.
\<close>

lemma evaluate_step_eligible:
  assumes "eligible cfg now cdMs st r"
  shows "fst (evaluate cfg now cdMs (r # rs) low st) =
           fst (evaluate cfg now cdMs rs (low @ [r])
                  (st\<lparr>lastAlerts := (lastAlerts st)(key r \<mapsto> now)\<rparr>))"
    and "fst (snd (evaluate cfg now cdMs (r # rs) low st)) =
           fst (snd (evaluate cfg now cdMs rs (low @ [r])
                  (st\<lparr>lastAlerts := (lastAlerts st)(key r \<mapsto> now)\<rparr>)))"
  using assms by (simp_all add: eligible_def Let_def split: prod.splits)

lemma evaluate_step_not_eligible:
  assumes "\<not> eligible cfg now cdMs st r"
  shows "fst (evaluate cfg now cdMs (r # rs) low st) = fst (evaluate cfg now cdMs rs low st)"
    and "fst (snd (evaluate cfg now cdMs (r # rs) low st)) =
           fst (snd (evaluate cfg now cdMs rs low st))"
  using assms by (auto simp: eligible_def Let_def split: prod.splits)

text \<open>
  With pairwise different keys, the loop tests every reading against the state it started
  from: the alert list is the sublist of eligible readings, and exactly their keys are set
  to \<open>now\<close>.
\<close>

lemma evaluate_distinct:
  assumes "distinct (map key rs)"
  shows "fst (evaluate cfg now cdMs rs low st) = low @ filter (eligible cfg now cdMs st) rs
       \<and> lastAlerts (fst (snd (evaluate cfg now cdMs rs low st))) =
           (\<lambda>k. if k \<in> key ` {r \<in> set rs. eligible cfg now cdMs st r} then Some now
                else lastAlerts st k)"
  using assms
proof (induction rs arbitrary: low st)
  case Nil
  then show ?case by simp
next
  case (Cons r rs)
  have d: "distinct (map key rs)" and nk: "\<forall>x \<in> set rs. key x \<noteq> key r"
    using Cons.prems by (auto simp: image_iff)
  show ?case
  proof (cases "eligible cfg now cdMs st r")
    case True
    let ?st1 = "st\<lparr>lastAlerts := (lastAlerts st)(key r \<mapsto> now)\<rparr>"
    have same: "\<forall>x \<in> set rs. eligible cfg now cdMs ?st1 x = eligible cfg now cdMs st x"
      using nk by (simp add: eligible_def)
    have f: "filter (eligible cfg now cdMs ?st1) rs = filter (eligible cfg now cdMs st) rs"
      using same by (auto intro: filter_cong)
    have s: "{x \<in> set rs. eligible cfg now cdMs ?st1 x} = {x \<in> set rs. eligible cfg now cdMs st x}"
      using same by auto
    have s2: "{x \<in> set (r # rs). eligible cfg now cdMs st x} =
                insert r {x \<in> set rs. eligible cfg now cdMs st x}"
      using True by auto
    have low: "fst (evaluate cfg now cdMs (r # rs) low st) =
                 low @ filter (eligible cfg now cdMs st) (r # rs)"
      using True Cons.IH[OF d, of "low @ [r]" ?st1]
      by (simp add: evaluate_step_eligible(1)[OF True] f del: evaluate.simps)
    have ih: "lastAlerts (fst (snd (evaluate cfg now cdMs rs (low @ [r]) ?st1))) =
           (\<lambda>k. if k \<in> key ` {x \<in> set rs. eligible cfg now cdMs st x} then Some now
                else lastAlerts ?st1 k)"
      using Cons.IH[OF d, of "low @ [r]" ?st1] by (simp only: s)
    have st: "lastAlerts (fst (snd (evaluate cfg now cdMs (r # rs) low st))) =
           (\<lambda>k. if k \<in> key ` {x \<in> set (r # rs). eligible cfg now cdMs st x} then Some now
                else lastAlerts st k)"
      unfolding evaluate_step_eligible(2)[OF True] ih s2 by (auto simp: fun_eq_iff)
    from low st show ?thesis by blast
  next
    case False
    have s2: "{x \<in> set (r # rs). eligible cfg now cdMs st x} =
                {x \<in> set rs. eligible cfg now cdMs st x}"
      using False by auto
    show ?thesis
      unfolding evaluate_step_not_eligible[OF False] s2
      using False Cons.IH[OF d, of low st] by simp
  qed
qed

lemma evaluate_low_members:
  "x \<in> set (fst (evaluate cfg now cdMs rs low st)) \<Longrightarrow> x \<in> set low \<or> (x \<in> set rs \<and> isLow cfg x)"
proof (induction rs arbitrary: low st)
  case Nil
  then show ?case by simp
next
  case (Cons r rs)
  show ?case
  proof (cases "eligible cfg now cdMs st r")
    case True
    then have "isLow cfg r" by (simp add: eligible_def)
    with Cons.IH[of "low @ [r]"] Cons.prems show ?thesis
      unfolding evaluate_step_eligible(1)[OF True] by auto
  next
    case False
    with Cons.IH[of low st] Cons.prems show ?thesis
      unfolding evaluate_step_not_eligible(1)[OF False] by auto
  qed
qed

lemma evaluate_state_pointwise:
  "lastAlerts (fst (snd (evaluate cfg now cdMs rs low st))) k = lastAlerts st k
   \<or> lastAlerts (fst (snd (evaluate cfg now cdMs rs low st))) k = Some now"
proof (induction rs arbitrary: low st)
  case Nil
  then show ?case by simp
next
  case (Cons r rs)
  show ?case
  proof (cases "eligible cfg now cdMs st r")
    case True
    with Cons.IH[of "low @ [r]" "st\<lparr>lastAlerts := (lastAlerts st)(key r \<mapsto> now)\<rparr>"] show ?thesis
      unfolding evaluate_step_eligible(2)[OF True] by (auto split: if_splits)
  next
    case False
    with Cons.IH[of low st] show ?thesis
      unfolding evaluate_step_not_eligible(2)[OF False] by auto
  qed
qed

lemma evaluate_append:
  "fst (evaluate cfg now cdMs (xs @ ys) low st) =
     fst (evaluate cfg now cdMs ys (fst (evaluate cfg now cdMs xs low st))
            (fst (snd (evaluate cfg now cdMs xs low st))))
   \<and> fst (snd (evaluate cfg now cdMs (xs @ ys) low st)) =
     fst (snd (evaluate cfg now cdMs ys (fst (evaluate cfg now cdMs xs low st))
            (fst (snd (evaluate cfg now cdMs xs low st)))))"
proof (induction xs arbitrary: low st)
  case Nil
  then show ?case by simp
next
  case (Cons r xs)
  show ?case
  proof (cases "eligible cfg now cdMs st r")
    case True
    show ?thesis
      using Cons.IH[of "low @ [r]" "st\<lparr>lastAlerts := (lastAlerts st)(key r \<mapsto> now)\<rparr>"]
      unfolding append_Cons evaluate_step_eligible[OF True] by simp
  next
    case False
    show ?thesis
      using Cons.IH[of low st]
      unfolding append_Cons evaluate_step_not_eligible[OF False] by simp
  qed
qed

lemma evaluate_step_events:
  "\<exists>pre. snd (snd (evaluate cfg now cdMs (r # rs) low st)) =
           pre @ snd (snd (evaluate cfg now cdMs rs
                        (if eligible cfg now cdMs st r then low @ [r] else low)
                        (if eligible cfg now cdMs st r
                         then st\<lparr>lastAlerts := (lastAlerts st)(key r \<mapsto> now)\<rparr> else st)))
         \<and> outputs pre = []"
proof (cases "eligible cfg now cdMs st r")
  case True
  then show ?thesis
    by (intro exI[of _ "[Console (BalanceLine (isLow cfg r) (chain r) (balance r) (symbol r)
                   (valueUSD r))]"])
       (simp add: eligible_def Let_def outputs_def split: prod.splits)
next
  case False
  then show ?thesis
    by (intro exI[of _ "Console (BalanceLine (isLow cfg r) (chain r) (balance r) (symbol r)
                   (valueUSD r)) # (if isLow cfg r then [Console (CooldownActive (chain r))] else [])"])
       (auto simp add: eligible_def Let_def outputs_def split: prod.splits)
qed

lemma outputs_evaluate: "outputs (snd (snd (evaluate cfg now cdMs rs low st))) = []"
proof (induction rs arbitrary: low st)
  case Nil
  then show ?case by (simp add: outputs_def)
next
  case (Cons r rs)
  from evaluate_step_events[of cfg now cdMs r rs low st] Cons.IH show ?case
    by (auto simp: outputs_def)
qed

lemma outputs_checkEVMChain: "outputs (snd (checkEVMChain cfg en ps k c)) = []"
  by (simp add: outputs_def checkEVMChain_def Let_def split: sum.splits)

lemma outputs_checkEVMLoop:
  "outputs (snd (checkEVMLoop cfg en ps cs results evs)) = outputs evs"
proof (induction cs arbitrary: results evs)
  case Nil
  then show ?case by simp
next
  case (Cons kc cs)
  obtain k c where kc: "kc = (k, c)" by (cases kc)
  obtain r ev where re: "checkEVMChain cfg en ps k c = (r, ev)" by (cases "checkEVMChain cfg en ps k c")
  have "outputs ev = []" using outputs_checkEVMChain[of cfg en ps k c] re by simp
  then show ?case using Cons.IH[of "results @ [r]" "evs @ ev"] kc re
    by (simp add: outputs_def)
qed

lemma outputs_checkEVMBalances: "outputs (snd (checkEVMBalances cfg en ps)) = []"
  by (simp add: checkEVMBalances_def outputs_checkEVMLoop) (simp add: outputs_def)

lemma outputs_checkSolanaBalance: "outputs (snd (checkSolanaBalance cfg en ps)) = []"
  by (simp add: outputs_def checkSolanaBalance_def Let_def split: sum.splits)

lemma outputs_loadState: "outputs (snd (loadState fs)) = []"
  by (simp add: outputs_def loadState_def split: sum.splits)

lemma or_zero_default: "or_zero x = (case x of None \<Rightarrow> 0 | Some t \<Rightarrow> t)"
  by (simp add: or_zero_def split: option.splits)

lemma cooldownMs_ms: "cooldownMs cfg = alert_cooldown_hours cfg * 3600000"
  by (simp add: cooldownMs_def)

lemmas ex_defs = ex_eth_def ex_base_def ex_sol_def ex_cfg_def ex_prices_def ex_env_def
  ex_files_def ex_eth_reading_def ex_base_reading_def ex_sol_reading_def

text \<open>
  The concrete cycle, evaluated.
\<close>

lemma ex_allResults:
  "allResults ex_cfg ex_env ex_prices = [ex_eth_reading, ex_base_reading, ex_sol_reading]"
  by (simp add: allResults_def checkEVMBalances_def checkEVMChain_def checkSolanaBalance_def
      price_of_def or_zero_def LAMPORTS_PER_SOL_def ex_defs)

lemmas cycle_defs = runCheck_def getPrices_def price_url_def price_ids_def set_add_def
  allResults_def checkEVMBalances_def checkEVMChain_def checkSolanaBalance_def evm_failed_def
  sol_failed_def price_of_def or_zero_def LAMPORTS_PER_SOL_def loadState_def readFileSync_def
  JSON_parse_def saveState_def sendTelegramAlert_def buildMessage_def shortAddr_def
  statusData_def writeStatus_def alertAndSave_def evaluateState_def isLow_def cooldownMs_def
  Let_def

lemma outputs_evaluateNoAlerts: "outputs (snd (evaluateNoAlerts cfg msg rs)) = []"
  by (induction rs) (auto simp: outputs_def Let_def split: prod.splits)

lemma outputs_evaluateState: "outputs (snd (evaluateState cfg now cdMs rs v)) = []"
proof (cases v)
  case JsonNull
  then show ?thesis
    using outputs_evaluateNoAlerts[of cfg "''Cannot read properties of null''" rs]
    by (auto simp: evaluateState_def split: prod.splits option.splits)
next
  case JsonNoAlerts
  then show ?thesis
    using outputs_evaluateNoAlerts[of cfg "''Cannot read properties of undefined''" rs]
    by (auto simp: evaluateState_def split: prod.splits option.splits)
next
  case (JsonState st)
  then show ?thesis
    using outputs_evaluate[of cfg now cdMs rs "[]" st]
    by (auto simp: evaluateState_def split: prod.splits)
qed

lemma outputs_prefix:
  "outputs ([Console (RunningCheck ts)] @ [HttpsGet u] @ [Console (PricesLine ps)]
      @ snd (checkEVMBalances cfg en ps) @ snd (checkSolanaBalance cfg en ps)
      @ snd (loadState fs) @ [Console BalancesHeader]
      @ snd (evaluateState cfg now cdMs rs v)) = []"
  using outputs_checkEVMBalances[of cfg en ps] outputs_checkSolanaBalance[of cfg en ps]
    outputs_loadState[of fs] outputs_evaluateState[of cfg now cdMs rs v]
  by (simp add: outputs_def)

text \<open>
  The cycle once the prices have arrived, in terms of the result of the loop: everything
  before the \<open>if\<close> statement only reads and logs.
\<close>

lemma runCheck_after_prices:
  assumes "https_get en (price_url cfg) = Inr ps"
  shows "\<exists>pre. outputs pre = [] \<and>
     runCheck cfg en fs =
       (case fst (evaluateState cfg (date_now en) (cooldownMs cfg) (allResults cfg en ps)
                    (fst (loadState fs))) of
          Inl e \<Rightarrow> \<lparr>outcome = Some e, files_after = fs, events = pre\<rparr>
        | Inr (low, v) \<Rightarrow>
            (case alertAndSave cfg en low v fs of
               (Inl e, fs1, ev5) \<Rightarrow> \<lparr>outcome = Some e, files_after = fs1, events = pre @ ev5\<rparr>
             | (Inr u, fs1, ev5) \<Rightarrow>
                 (case writeStatus en (statusData cfg en ps (allResults cfg en ps)) fs1 of
                    (Inl e, fs2, ev6) \<Rightarrow>
                      \<lparr>outcome = Some e, files_after = fs2, events = pre @ ev5 @ ev6\<rparr>
                  | (Inr u', fs2, ev6) \<Rightarrow>
                      \<lparr>outcome = None, files_after = fs2, events = pre @ ev5 @ ev6\<rparr>)))"
proof -
  let ?L = "evaluateState cfg (date_now en) (cooldownMs cfg) (allResults cfg en ps)
              (fst (loadState fs))"
  let ?pre = "[Console (RunningCheck (iso_timestamp en))] @ [HttpsGet (price_url cfg)]
      @ [Console (PricesLine ps)]
      @ snd (checkEVMBalances cfg en ps) @ snd (checkSolanaBalance cfg en ps)
      @ snd (loadState fs) @ [Console BalancesHeader] @ snd ?L"
  have "outputs ?pre = []" by (rule outputs_prefix)
  moreover have "runCheck cfg en fs =
       (case fst ?L of
          Inl e \<Rightarrow> \<lparr>outcome = Some e, files_after = fs, events = ?pre\<rparr>
        | Inr (low, v) \<Rightarrow>
            (case alertAndSave cfg en low v fs of
               (Inl e, fs1, ev5) \<Rightarrow> \<lparr>outcome = Some e, files_after = fs1, events = ?pre @ ev5\<rparr>
             | (Inr u, fs1, ev5) \<Rightarrow>
                 (case writeStatus en (statusData cfg en ps (allResults cfg en ps)) fs1 of
                    (Inl e, fs2, ev6) \<Rightarrow>
                      \<lparr>outcome = Some e, files_after = fs2, events = ?pre @ ev5 @ ev6\<rparr>
                  | (Inr u', fs2, ev6) \<Rightarrow>
                      \<lparr>outcome = None, files_after = fs2, events = ?pre @ ev5 @ ev6\<rparr>)))"
    using assms
    by (simp add: runCheck_def getPrices_def Let_def split: prod.splits sum.splits)
  ultimately show ?thesis by blast
qed

lemma alertAndSave_send_failed:
  assumes "low \<noteq> []"
      and "https_post en (bot_token (telegram cfg)) (chat_id (telegram cfg))
             (buildMessage cfg en low) = Inl e"
  shows "alertAndSave cfg en low v fs =
           (Inl e, fs, [TelegramPost (bot_token (telegram cfg)) (chat_id (telegram cfg))
                          (buildMessage cfg en low),
                        Console (TelegramSendError e)])"
  using assms by (simp add: alertAndSave_def sendTelegramAlert_def Let_def)

lemma state_write_in_outputs:
  "WriteStateFile s \<in> set evs \<Longrightarrow> WriteStateFile s \<in> set (outputs evs)"
  by (simp add: outputs_def)

lemma alertAndSave_state_write:
  "WriteStateFile s \<in> set (snd (snd (alertAndSave cfg en low v fs))) \<Longrightarrow> s = v"
  by (auto simp: alertAndSave_def sendTelegramAlert_def saveState_def Let_def
      split: if_splits sum.splits write_result.splits)

lemma writeStatus_events: "snd (snd (writeStatus en sd fs)) = [WriteStatusFile sd]"
  by (simp add: writeStatus_def split: write_result.splits)

text \<open>The state that a cycle passes to \<open>saveState\<close> is the state after the loop.\<close>

lemma runCheck_state_write:
  assumes "WriteStateFile s \<in> set (events (runCheck cfg en fs))"
  shows "\<exists>low. fst (evaluateState cfg (date_now en) (cooldownMs cfg)
                 (allResults cfg en (projr (https_get en (price_url cfg))))
                 (fst (loadState fs))) = Inr (low, s)"
proof (cases "https_get en (price_url cfg)")
  case (Inl err)
  with assms show ?thesis
    by (simp add: runCheck_def getPrices_def)
next
  case (Inr ps)
  let ?L = "evaluateState cfg (date_now en) (cooldownMs cfg) (allResults cfg en ps)
              (fst (loadState fs))"
  from runCheck_after_prices[OF Inr, of fs] obtain pre where
    pre: "outputs pre = []" and
    run: "runCheck cfg en fs =
       (case fst ?L of
          Inl e \<Rightarrow> \<lparr>outcome = Some e, files_after = fs, events = pre\<rparr>
        | Inr (low, v) \<Rightarrow>
            (case alertAndSave cfg en low v fs of
               (Inl e, fs1, ev5) \<Rightarrow> \<lparr>outcome = Some e, files_after = fs1, events = pre @ ev5\<rparr>
             | (Inr u, fs1, ev5) \<Rightarrow>
                 (case writeStatus en (statusData cfg en ps (allResults cfg en ps)) fs1 of
                    (Inl e, fs2, ev6) \<Rightarrow>
                      \<lparr>outcome = Some e, files_after = fs2, events = pre @ ev5 @ ev6\<rparr>
                  | (Inr u', fs2, ev6) \<Rightarrow>
                      \<lparr>outcome = None, files_after = fs2, events = pre @ ev5 @ ev6\<rparr>)))"
    by blast
  have notpre: "WriteStateFile s \<notin> set pre"
    using state_write_in_outputs[of s pre] pre by auto
  show ?thesis
  proof (cases "fst ?L")
    case (Inl e)
    with assms run notpre show ?thesis by simp
  next
    case (Inr lv)
    obtain low v where lv: "lv = (low, v)" by (cases lv)
    obtain res fs1 ev5 where as: "alertAndSave cfg en low v fs = (res, fs1, ev5)"
      by (cases "alertAndSave cfg en low v fs")
    have "WriteStateFile s \<in> set ev5"
    proof (cases res)
      case (Inl e)
      with assms run as notpre Inr lv show ?thesis by simp
    next
      case r: (Inr u)
      obtain res6 fs2 ev6 where ws:
        "writeStatus en (statusData cfg en ps (allResults cfg en ps)) fs1 = (res6, fs2, ev6)"
        by (cases "writeStatus en (statusData cfg en ps (allResults cfg en ps)) fs1")
      have "ev6 = [WriteStatusFile (statusData cfg en ps (allResults cfg en ps))]"
        using writeStatus_events[of en "statusData cfg en ps (allResults cfg en ps)" fs1] ws
        by simp
      with assms run as notpre Inr lv r ws show ?thesis
        by (cases res6) auto
    qed
    then have "s = v"
      using alertAndSave_state_write[of s cfg en low v fs] as by simp
    with Inr lv \<open>https_get en (price_url cfg) = Inr ps\<close> show ?thesis by simp
  qed
qed

lemma evaluateNoAlerts_completes:
  "fst (evaluateNoAlerts cfg msg rs) = None \<or> fst (evaluateNoAlerts cfg msg rs) = Some msg"
  by (induction rs) (auto simp: Let_def split: prod.splits)

lemma evaluateState_alerts:
  assumes "fst (evaluateState cfg now cdMs rs v) = Inr (low, v')"
  shows "alerts v' k = alerts v k \<or> alerts v' k = Some now"
proof (cases v)
  case JsonNull
  with assms have "v' = v"
    by (auto simp: evaluateState_def split: prod.splits option.splits)
  then show ?thesis by simp
next
  case JsonNoAlerts
  with assms have "v' = v"
    by (auto simp: evaluateState_def split: prod.splits option.splits)
  then show ?thesis by simp
next
  case (JsonState st)
  with assms have "v' = JsonState (fst (snd (evaluate cfg now cdMs rs [] st)))"
    by (auto simp: evaluateState_def split: prod.splits)
  with JsonState show ?thesis
    using evaluate_state_pointwise[of cfg now cdMs rs "[]" st k] by (simp add: alerts_def)
qed

lemmas env_defs = env_send_fails_def env_save_fails_def env_status_fails_def
  env_price_fails_def env_eth_fails_def cx_cfg_def

lemma allResults_length: "length (allResults cfg en ps) = length (chains cfg) + 1"
  by (simp add: allResults_def checkEVMBalances_fst)

lemma allResults_nth_evm:
  assumes "j < length (chains cfg)"
  shows "allResults cfg en ps ! j =
           fst (checkEVMChain cfg en ps (fst (chains cfg ! j)) (snd (chains cfg ! j)))"
  using assms by (simp add: allResults_def checkEVMBalances_fst nth_append)

lemma allResults_nth_sol:
  "allResults cfg en ps ! length (chains cfg) = fst (checkSolanaBalance cfg en ps)"
  by (simp add: allResults_def checkEVMBalances_fst nth_append)

lemma alertAndSave_save_fails:
  assumes "low = [] \<or> https_post en (bot_token (telegram cfg)) (chat_id (telegram cfg))
             (buildMessage cfg en low) = Inr body"
      and "write_state en = WriteFails e left"
  shows "fst (alertAndSave cfg en low v fs) = Inl e
       \<and> snd (snd (alertAndSave cfg en low v fs)) \<noteq> []
       \<and> last (snd (snd (alertAndSave cfg en low v fs))) = WriteStateFile v"
  using assms by (auto simp: alertAndSave_def sendTelegramAlert_def saveState_def Let_def)

lemma alertAndSave_save_ok:
  assumes "low = [] \<or> https_post en (bot_token (telegram cfg)) (chat_id (telegram cfg))
             (buildMessage cfg en low) = Inr body"
      and "write_state en = Written"
  shows "fst (alertAndSave cfg en low v fs) = Inr ()"
  using assms by (auto simp: alertAndSave_def sendTelegramAlert_def saveState_def Let_def)

lemmas all_defs = cycle_defs ex_defs env_defs env_sol_fails_def ex_files_prior_def
  ex_files_no_alerts_def ex_files_empty_map_def
  ex_failed_reading_def

lemma ex_allResults_cx:
  "allResults cx_cfg ex_env ex_prices = [ex_eth_reading, ex_base_reading, ex_sol_reading]"
  by (simp add: all_defs)

section \<open>The properties of the specification\<close>

subsection \<open>C1: a failed delivery and the rest of the cycle\<close>

text \<open>
  C1 as stated does not hold. In the concrete cycle one alert is eligible; when the Telegram
  request fails, \<open>runCheck\<close> rejects with that error, the only output of the cycle is the
  request itself, and both files are as before: neither \<open>saveState\<close> nor the status write runs.
\<close>

theorem send_failure_counterexample:
  "fst (evaluateState ex_cfg (date_now env_send_fails) (cooldownMs ex_cfg)
          (allResults ex_cfg env_send_fails ex_prices) (fst (loadState ex_files)))
     = Inr ([ex_eth_reading], JsonState \<lparr>lastAlerts = [''evm_ethereum'' \<mapsto> 1700000000000]\<rparr>)
   \<and> outcome (runCheck ex_cfg env_send_fails ex_files) = Some ''ECONNRESET''
   \<and> files_after (runCheck ex_cfg env_send_fails ex_files) = ex_files
   \<and> outputs (events (runCheck ex_cfg env_send_fails ex_files)) =
       [TelegramPost ''tok'' ''42'' (buildMessage ex_cfg env_send_fails [ex_eth_reading])]"
  by (simp add: all_defs outputs_def)

text \<open>
  C1, amended: when at least one alert is eligible and the Telegram request fails, the
  failure is logged by \<open>sendTelegramAlert\<close> (the last event of the cycle) and the request is made
  once, but the rejection leaves \<open>runCheck\<close>: the cycle rejects with that error, and neither the
  cooldown save nor the status write is executed.
\<close>

theorem send_failure_aborts_cycle:
  assumes "https_get en (price_url cfg) = Inr ps"
      and "fst (evaluateState cfg (date_now en) (cooldownMs cfg) (allResults cfg en ps)
                  (fst (loadState fs))) = Inr (low, v)"
      and "low \<noteq> []"
      and "https_post en (bot_token (telegram cfg)) (chat_id (telegram cfg))
             (buildMessage cfg en low) = Inl e"
  shows "outcome (runCheck cfg en fs) = Some e
       \<and> files_after (runCheck cfg en fs) = fs
       \<and> outputs (events (runCheck cfg en fs)) =
           [TelegramPost (bot_token (telegram cfg)) (chat_id (telegram cfg))
              (buildMessage cfg en low)]
       \<and> last (events (runCheck cfg en fs)) = Console (TelegramSendError e)"
proof -
  from runCheck_after_prices[OF assms(1), of fs] obtain pre where
    pre: "outputs pre = []" and
    run: "runCheck cfg en fs =
       (case fst (evaluateState cfg (date_now en) (cooldownMs cfg) (allResults cfg en ps)
                    (fst (loadState fs))) of
          Inl e \<Rightarrow> \<lparr>outcome = Some e, files_after = fs, events = pre\<rparr>
        | Inr (low, v) \<Rightarrow>
            (case alertAndSave cfg en low v fs of
               (Inl e, fs1, ev5) \<Rightarrow> \<lparr>outcome = Some e, files_after = fs1, events = pre @ ev5\<rparr>
             | (Inr u, fs1, ev5) \<Rightarrow>
                 (case writeStatus en (statusData cfg en ps (allResults cfg en ps)) fs1 of
                    (Inl e, fs2, ev6) \<Rightarrow>
                      \<lparr>outcome = Some e, files_after = fs2, events = pre @ ev5 @ ev6\<rparr>
                  | (Inr u', fs2, ev6) \<Rightarrow>
                      \<lparr>outcome = None, files_after = fs2, events = pre @ ev5 @ ev6\<rparr>)))"
    by blast
  have "runCheck cfg en fs =
          \<lparr>outcome = Some e, files_after = fs,
           events = pre @ [TelegramPost (bot_token (telegram cfg)) (chat_id (telegram cfg))
                      (buildMessage cfg en low),
                    Console (TelegramSendError e)]\<rparr>"
    unfolding run assms(2) by (simp add: alertAndSave_send_failed[OF assms(3,4)])
  then show ?thesis
    using pre by (simp add: outputs_def)
qed

theorem send_failure_aborts_cycle_witness:
  "https_get env_send_fails (price_url ex_cfg) = Inr ex_prices
   \<and> fst (evaluateState ex_cfg (date_now env_send_fails) (cooldownMs ex_cfg)
          (allResults ex_cfg env_send_fails ex_prices) (fst (loadState ex_files)))
       = Inr ([ex_eth_reading], JsonState \<lparr>lastAlerts = [''evm_ethereum'' \<mapsto> 1700000000000]\<rparr>)
   \<and> https_post env_send_fails (bot_token (telegram ex_cfg)) (chat_id (telegram ex_cfg))
        (buildMessage ex_cfg env_send_fails [ex_eth_reading]) = Inl ''ECONNRESET''
   \<and> outcome (runCheck ex_cfg env_send_fails ex_files) = Some ''ECONNRESET''
   \<and> files_after (runCheck ex_cfg env_send_fails ex_files) = ex_files
   \<and> last (events (runCheck ex_cfg env_send_fails ex_files)) =
        Console (TelegramSendError ''ECONNRESET'')"
proof -
  have h1: "https_get env_send_fails (price_url ex_cfg) = Inr ex_prices"
    by (simp add: env_send_fails_def ex_env_def)
  have h2: "fst (evaluateState ex_cfg (date_now env_send_fails) (cooldownMs ex_cfg)
          (allResults ex_cfg env_send_fails ex_prices) (fst (loadState ex_files)))
       = Inr ([ex_eth_reading], JsonState \<lparr>lastAlerts = [''evm_ethereum'' \<mapsto> 1700000000000]\<rparr>)"
    by (simp add: all_defs)
  have h3: "[ex_eth_reading] \<noteq> []" by simp
  have h4: "https_post env_send_fails (bot_token (telegram ex_cfg)) (chat_id (telegram ex_cfg))
        (buildMessage ex_cfg env_send_fails [ex_eth_reading]) = Inl ''ECONNRESET''"
    by (simp add: env_send_fails_def ex_env_def)
  from send_failure_aborts_cycle[OF h1 h2 h3 h4] h1 h2 h4 show ?thesis by blast
qed

subsection \<open>C2: which readings are placed on the alert list\<close>

text \<open>
  C2 as stated does not hold. With a cooldown of one million hours, the Ethereum reading is
  below the threshold and its key is absent from the loaded state (the empty map, the state
  file being missing), yet it is not placed on the alert list: an absent key counts as a last alert at time 0, and \<open>now\<close> does not exceed
  the cooldown.
\<close>

theorem never_alerted_counterexample:
  "ex_eth_reading \<in> set (allResults cx_cfg ex_env ex_prices)
   \<and> valueUSD ex_eth_reading = Some 20
   \<and> (20::real) < threshold_usd cx_cfg
   \<and> fst (loadState ex_files) = JsonState \<lparr>lastAlerts = Map.empty\<rparr>
   \<and> lastAlerts \<lparr>lastAlerts = Map.empty\<rparr> (key ex_eth_reading) = None
   \<and> ex_eth_reading \<notin> set (fst (evaluate cx_cfg (date_now ex_env) (cooldownMs cx_cfg)
         (allResults cx_cfg ex_env ex_prices) [] \<lparr>lastAlerts = Map.empty\<rparr>))"
  by (simp add: all_defs)

text \<open>
  C2, amended: for every reading of a cycle (the chain keys of the configuration being
  pairwise different), the reading is placed on the alert list if and only if its
  \<open>valueUSD\<close> is present and below \<open>threshold_usd\<close>, and \<open>now\<close> minus the stored timestamp, taken
  as 0 when the key is absent from the loaded state, strictly exceeds \<open>alert_cooldown_hours\<close>
  times 3600000. So a below-threshold reading that was never alerted is eligible exactly
  when \<open>now\<close> exceeds the cooldown in milliseconds.
\<close>

theorem alert_eligibility:
  assumes "distinct (map fst (chains cfg))"
      and "r \<in> set (allResults cfg en ps)"
  shows "r \<in> set (fst (evaluate cfg now (cooldownMs cfg) (allResults cfg en ps) [] st)) \<longleftrightarrow>
           (\<exists>v. valueUSD r = Some v \<and> v < threshold_usd cfg)
           \<and> now - (case lastAlerts st (key r) of None \<Rightarrow> 0 | Some t \<Rightarrow> t)
                 > alert_cooldown_hours cfg * 3600000"
proof -
  have d: "distinct (map key (allResults cfg en ps))"
    using assms(1) by (rule distinct_keys_allResults)
  have low: "isLow cfg r \<longleftrightarrow> (\<exists>v. valueUSD r = Some v \<and> v < threshold_usd cfg)"
    by (simp add: isLow_def split: option.splits)
  show ?thesis
    using assms(2) evaluate_distinct[OF d, of cfg now "cooldownMs cfg" "[]" st]
    by (simp add: eligible_def low or_zero_default cooldownMs_ms)
qed

theorem alert_eligibility_witness:
  "distinct (map fst (chains ex_cfg))
   \<and> ex_eth_reading \<in> set (allResults ex_cfg ex_env ex_prices)
   \<and> ex_eth_reading \<in> set (fst (evaluate ex_cfg 1700000000000 (cooldownMs ex_cfg)
         (allResults ex_cfg ex_env ex_prices) [] \<lparr>lastAlerts = Map.empty\<rparr>))
   \<and> ex_eth_reading \<notin> set (fst (evaluate ex_cfg 1700000000000 (cooldownMs ex_cfg)
         (allResults ex_cfg ex_env ex_prices) []
         \<lparr>lastAlerts = [''evm_ethereum'' \<mapsto> 1699996400000]\<rparr>))"
proof -
  have h1: "distinct (map fst (chains ex_cfg))"
    by (simp add: ex_defs)
  have h2: "ex_eth_reading \<in> set (allResults ex_cfg ex_env ex_prices)"
    by (simp add: ex_allResults)
  have yes: "(\<exists>v. valueUSD ex_eth_reading = Some v \<and> v < threshold_usd ex_cfg)
      \<and> 1700000000000 - (case lastAlerts \<lparr>lastAlerts = Map.empty\<rparr> (key ex_eth_reading) of
                            None \<Rightarrow> 0 | Some t \<Rightarrow> t)
          > alert_cooldown_hours ex_cfg * 3600000"
    by (simp add: ex_defs)
  have no: "\<not> ((\<exists>v. valueUSD ex_eth_reading = Some v \<and> v < threshold_usd ex_cfg)
      \<and> 1700000000000 -
          (case lastAlerts \<lparr>lastAlerts = [''evm_ethereum'' \<mapsto> 1699996400000]\<rparr>
                  (key ex_eth_reading) of None \<Rightarrow> 0 | Some t \<Rightarrow> t)
          > alert_cooldown_hours ex_cfg * 3600000)"
    by (simp add: ex_defs)
  from alert_eligibility[OF h1 h2, of 1700000000000 "\<lparr>lastAlerts = Map.empty\<rparr>"]
       alert_eligibility[OF h1 h2, of 1700000000000
         "\<lparr>lastAlerts = [''evm_ethereum'' \<mapsto> 1699996400000]\<rparr>"]
       h1 h2 yes no
  show ?thesis by blast
qed

subsection \<open>C3: a failed price fetch\<close>

text \<open>
  C3: when the price fetch fails, the cycle consists of the start line, the price request
  and the failure line, and nothing else: no balance is read, no state is loaded or saved, no
  alert is sent, no status is written, the files are as before, and \<open>runCheck\<close> resolves.
\<close>

theorem price_failure_aborts_cycle:
  assumes "https_get en (price_url cfg) = Inl err"
  shows "runCheck cfg en fs =
           \<lparr>outcome = None, files_after = fs,
            events = [Console (RunningCheck (iso_timestamp en)), HttpsGet (price_url cfg),
                      Console (FailedToFetchPrices err)]\<rparr>"
  using assms by (simp add: runCheck_def getPrices_def)

theorem price_failure_aborts_cycle_witness:
  "https_get env_price_fails (price_url ex_cfg) = Inl ''ETIMEDOUT''
   \<and> runCheck ex_cfg env_price_fails ex_files_prior =
       \<lparr>outcome = None, files_after = ex_files_prior,
        events = [Console (RunningCheck (iso_timestamp env_price_fails)),
                  HttpsGet (price_url ex_cfg),
                  Console (FailedToFetchPrices ''ETIMEDOUT'')]\<rparr>"
proof -
  have h: "https_get env_price_fails (price_url ex_cfg) = Inl ''ETIMEDOUT''"
    by (simp add: env_price_fails_def ex_env_def)
  from price_failure_aborts_cycle[OF h, of ex_files_prior] h show ?thesis by blast
qed

subsection \<open>C4: a failed balance read is confined to its reading\<close>

text \<open>
  C4: a reader returns a reading on every path. When the read of an EVM chain fails (the
  endpoint fails, or the price lookup throws after the balance arrived), the reading of that
  chain has no balance, no \<open>valueUSD\<close>, price 0 and the error message; likewise for Solana.
  Every configured chain gets its reading, and the reading of a chain is the same in any two
  environments that answer alike for that chain, whatever they answer for the others.
\<close>

theorem balance_read_failure_isolated:
  "(\<forall>i k c msg. i < length (chains cfg) \<longrightarrow> chains cfg ! i = (k, c) \<longrightarrow>
       (evm_rpc en k = Inl msg
        \<or> \<not> isl (evm_rpc en k) \<and> price_of ps (coingecko_id c) = Inl msg) \<longrightarrow>
       allResults cfg en ps ! i =
         \<lparr>chain = name c, symbol = chain_cfg.symbol c, balance = None, price = 0,
          valueUSD = None, address = evm_address cfg, key = ''evm_'' @ k, error = Some msg\<rparr>)
   \<and> (\<forall>msg. (sol_rpc en = Inl msg
              \<or> \<not> isl (sol_rpc en) \<and> price_of ps (coingecko_id (solana cfg)) = Inl msg) \<longrightarrow>
       allResults cfg en ps ! length (chains cfg) =
         \<lparr>chain = name (solana cfg), symbol = chain_cfg.symbol (solana cfg), balance = None,
          price = 0, valueUSD = None, address = solana_address cfg, key = ''solana'',
          error = Some msg\<rparr>)
   \<and> length (allResults cfg en ps) = length (chains cfg) + 1
   \<and> (\<forall>j < length (chains cfg).
         evm_rpc en' (fst (chains cfg ! j)) = evm_rpc en (fst (chains cfg ! j)) \<longrightarrow>
         allResults cfg en' ps ! j = allResults cfg en ps ! j)
   \<and> (sol_rpc en' = sol_rpc en \<longrightarrow>
         allResults cfg en' ps ! length (chains cfg) = allResults cfg en ps ! length (chains cfg))"
proof (intro conjI allI impI)
  fix i k c msg
  assume "i < length (chains cfg)" "chains cfg ! i = (k, c)"
    and "evm_rpc en k = Inl msg
         \<or> \<not> isl (evm_rpc en k) \<and> price_of ps (coingecko_id c) = Inl msg"
  then show "allResults cfg en ps ! i =
         \<lparr>chain = name c, symbol = chain_cfg.symbol c, balance = None, price = 0,
          valueUSD = None, address = evm_address cfg, key = ''evm_'' @ k, error = Some msg\<rparr>"
    by (auto simp: allResults_nth_evm checkEVMChain_def evm_failed_def split: sum.splits)
next
  fix msg
  assume "sol_rpc en = Inl msg
          \<or> \<not> isl (sol_rpc en) \<and> price_of ps (coingecko_id (solana cfg)) = Inl msg"
  then show "allResults cfg en ps ! length (chains cfg) =
         \<lparr>chain = name (solana cfg), symbol = chain_cfg.symbol (solana cfg), balance = None,
          price = 0, valueUSD = None, address = solana_address cfg, key = ''solana'',
          error = Some msg\<rparr>"
    by (auto simp: allResults_nth_sol checkSolanaBalance_def sol_failed_def split: sum.splits)
next
  show "length (allResults cfg en ps) = length (chains cfg) + 1"
    by (rule allResults_length)
next
  fix j
  assume "j < length (chains cfg)"
    and "evm_rpc en' (fst (chains cfg ! j)) = evm_rpc en (fst (chains cfg ! j))"
  then show "allResults cfg en' ps ! j = allResults cfg en ps ! j"
    by (simp add: allResults_nth_evm checkEVMChain_def)
next
  assume "sol_rpc en' = sol_rpc en"
  then show "allResults cfg en' ps ! length (chains cfg) = allResults cfg en ps ! length (chains cfg)"
    by (simp add: allResults_nth_sol checkSolanaBalance_def)
qed

theorem balance_read_failure_isolated_witness:
  "evm_rpc env_eth_fails ''ethereum'' = Inl ''timeout''
   \<and> allResults ex_cfg env_eth_fails ex_prices ! 0 = ex_failed_reading
   \<and> allResults ex_cfg env_eth_fails ex_prices ! 1 = allResults ex_cfg ex_env ex_prices ! 1
   \<and> allResults ex_cfg env_eth_fails ex_prices ! 2 = allResults ex_cfg ex_env ex_prices ! 2
   \<and> sol_rpc env_sol_fails = Inl ''429 Too Many Requests''
   \<and> error (allResults ex_cfg env_sol_fails ex_prices ! 2) = Some ''429 Too Many Requests''
   \<and> allResults ex_cfg env_sol_fails ex_prices ! 0 = allResults ex_cfg ex_env ex_prices ! 0"
proof -
  have len: "length (chains ex_cfg) = 2" by (simp add: ex_defs)
  have c0: "chains ex_cfg ! 0 = (''ethereum'', ex_eth)" by (simp add: ex_defs)
  have c1: "fst (chains ex_cfg ! 1) = ''base''" by (simp add: ex_defs)
  have f0: "evm_rpc env_eth_fails ''ethereum'' = Inl ''timeout''"
    by (simp add: env_eth_fails_def ex_env_def)
  have s1: "evm_rpc env_eth_fails ''base'' = evm_rpc ex_env ''base''"
    by (simp add: env_eth_fails_def ex_env_def)
  have s2: "sol_rpc env_eth_fails = sol_rpc ex_env"
    by (simp add: env_eth_fails_def ex_env_def)
  have g0: "sol_rpc env_sol_fails = Inl ''429 Too Many Requests''"
    by (simp add: env_sol_fails_def ex_env_def)
  have g1: "evm_rpc env_sol_fails ''ethereum'' = evm_rpc ex_env ''ethereum''"
    by (simp add: env_sol_fails_def ex_env_def)
  have lit: "\<lparr>chain = name ex_eth, symbol = chain_cfg.symbol ex_eth, balance = None, price = 0,
          valueUSD = None, address = evm_address ex_cfg, key = ''evm_'' @ ''ethereum'',
          error = Some ''timeout''\<rparr> = ex_failed_reading"
    by (simp add: ex_defs ex_failed_reading_def)
  note A = balance_read_failure_isolated[of ex_cfg ex_env ex_prices env_eth_fails]
  note B = balance_read_failure_isolated[of ex_cfg env_eth_fails ex_prices ex_env]
  note C = balance_read_failure_isolated[of ex_cfg env_sol_fails ex_prices ex_env]
  have r0: "allResults ex_cfg env_eth_fails ex_prices ! 0 = ex_failed_reading"
    using B c0 f0 len lit by simp
  have r1: "allResults ex_cfg env_eth_fails ex_prices ! 1 = allResults ex_cfg ex_env ex_prices ! 1"
    using A c1 s1 len by simp
  have r2: "allResults ex_cfg env_eth_fails ex_prices ! 2 = allResults ex_cfg ex_env ex_prices ! 2"
    using A s2 len by simp
  have r3: "error (allResults ex_cfg env_sol_fails ex_prices ! 2) = Some ''429 Too Many Requests''"
    using C g0 len by simp
  have r4: "allResults ex_cfg env_sol_fails ex_prices ! 0 = allResults ex_cfg ex_env ex_prices ! 0"
    using C c0 g1 len by simp
  from f0 r0 r1 r2 g0 r3 r4 show ?thesis by blast
qed

subsection \<open>C5: the cooldown state after a batch\<close>

text \<open>
  C5: after the evaluation of the readings of a cycle (chain keys pairwise different), the
  key of every reading on the alert list is stamped with the single \<open>now\<close> of the batch, and the
  entry of every other reading is what it was in the state the loop started from.
\<close>

theorem cooldown_after_batch:
  assumes "distinct (map fst (chains cfg))"
      and "r \<in> set (allResults cfg en ps)"
  shows "(r \<in> set (fst (evaluate cfg now (cooldownMs cfg) (allResults cfg en ps) [] st)) \<longrightarrow>
            lastAlerts (fst (snd (evaluate cfg now (cooldownMs cfg) (allResults cfg en ps) [] st)))
              (key r) = Some now)
       \<and> (r \<notin> set (fst (evaluate cfg now (cooldownMs cfg) (allResults cfg en ps) [] st)) \<longrightarrow>
            lastAlerts (fst (snd (evaluate cfg now (cooldownMs cfg) (allResults cfg en ps) [] st)))
              (key r) = lastAlerts st (key r))"
proof -
  let ?rs = "allResults cfg en ps"
  let ?el = "eligible cfg now (cooldownMs cfg) st"
  have d: "distinct (map key ?rs)"
    using assms(1) by (rule distinct_keys_allResults)
  note ev = evaluate_distinct[OF d, of cfg now "cooldownMs cfg" "[]" st]
  have mem: "r \<in> set (fst (evaluate cfg now (cooldownMs cfg) ?rs [] st)) \<longleftrightarrow> ?el r"
    using ev assms(2) by simp
  have img: "key r \<in> key ` {x \<in> set ?rs. ?el x} \<longleftrightarrow> ?el r"
  proof
    assume "key r \<in> key ` {x \<in> set ?rs. ?el x}"
    then obtain x where x: "x \<in> set ?rs" "?el x" "key x = key r" by auto
    from d x(1) assms(2) x(3) have "x = r"
      by (meson distinct_map inj_onD)
    with x(2) show "?el r" by simp
  next
    assume "?el r"
    with assms(2) show "key r \<in> key ` {x \<in> set ?rs. ?el x}" by auto
  qed
  have "lastAlerts (fst (snd (evaluate cfg now (cooldownMs cfg) ?rs [] st))) (key r) =
          (if ?el r then Some now else lastAlerts st (key r))"
    using ev img by simp
  then show ?thesis
    by (simp add: mem)
qed

theorem cooldown_after_batch_witness:
  "distinct (map fst (chains ex_cfg))
   \<and> ex_eth_reading \<in> set (allResults ex_cfg ex_env ex_prices)
   \<and> ex_sol_reading \<in> set (allResults ex_cfg ex_env ex_prices)
   \<and> lastAlerts (fst (snd (evaluate ex_cfg 1700000000000 (cooldownMs ex_cfg)
         (allResults ex_cfg ex_env ex_prices) [] \<lparr>lastAlerts = [''solana'' \<mapsto> 7]\<rparr>)))
       (key ex_eth_reading) = Some 1700000000000
   \<and> lastAlerts (fst (snd (evaluate ex_cfg 1700000000000 (cooldownMs ex_cfg)
         (allResults ex_cfg ex_env ex_prices) [] \<lparr>lastAlerts = [''solana'' \<mapsto> 7]\<rparr>)))
       (key ex_sol_reading) = Some 7"
proof -
  let ?st = "\<lparr>lastAlerts = [''solana'' \<mapsto> 7]\<rparr>"
  have h1: "distinct (map fst (chains ex_cfg))"
    by (simp add: ex_defs)
  have h2: "ex_eth_reading \<in> set (allResults ex_cfg ex_env ex_prices)"
    and h3: "ex_sol_reading \<in> set (allResults ex_cfg ex_env ex_prices)"
    by (simp_all add: ex_allResults)
  have low: "fst (evaluate ex_cfg 1700000000000 (cooldownMs ex_cfg)
         (allResults ex_cfg ex_env ex_prices) [] ?st) = [ex_eth_reading]"
    by (simp add: all_defs)
  have in1: "ex_eth_reading \<in> set [ex_eth_reading]" by simp
  have out1: "ex_sol_reading \<notin> set [ex_eth_reading]" by (simp add: ex_defs)
  have old: "lastAlerts ?st (key ex_sol_reading) = Some 7" by (simp add: ex_defs)
  from cooldown_after_batch[OF h1 h2, of 1700000000000 ?st]
       cooldown_after_batch[OF h1 h3, of 1700000000000 ?st]
       h1 h2 h3 in1 out1 old
  show ?thesis unfolding low by simp
qed

subsection \<open>C6: balance and value of a reading\<close>

text \<open>
  C6: in every reading of a cycle, \<open>valueUSD\<close> is absent if and only if \<open>balance\<close> is, and
  when the balance is present, \<open>valueUSD\<close> is the balance times the price.
\<close>

theorem reading_value_invariant:
  assumes "r \<in> set (allResults cfg en ps)"
  shows "(valueUSD r = None \<longleftrightarrow> balance r = None)
       \<and> (case balance r of None \<Rightarrow> True | Some b \<Rightarrow> valueUSD r = Some (b * price r))"
proof -
  have evm: "\<And>k c. (valueUSD (fst (checkEVMChain cfg en ps k c)) = None \<longleftrightarrow>
                      balance (fst (checkEVMChain cfg en ps k c)) = None)
       \<and> (case balance (fst (checkEVMChain cfg en ps k c)) of None \<Rightarrow> True
          | Some b \<Rightarrow> valueUSD (fst (checkEVMChain cfg en ps k c)) =
                      Some (b * price (fst (checkEVMChain cfg en ps k c))))"
    by (simp add: checkEVMChain_def evm_failed_def Let_def split: sum.splits)
  have sol: "(valueUSD (fst (checkSolanaBalance cfg en ps)) = None \<longleftrightarrow>
                      balance (fst (checkSolanaBalance cfg en ps)) = None)
       \<and> (case balance (fst (checkSolanaBalance cfg en ps)) of None \<Rightarrow> True
          | Some b \<Rightarrow> valueUSD (fst (checkSolanaBalance cfg en ps)) =
                      Some (b * price (fst (checkSolanaBalance cfg en ps))))"
    by (simp add: checkSolanaBalance_def sol_failed_def Let_def split: sum.splits)
  from assms consider (e) k c where "r = fst (checkEVMChain cfg en ps k c)"
    | (s) "r = fst (checkSolanaBalance cfg en ps)"
    by (auto simp: allResults_def checkEVMBalances_fst)
  then show ?thesis
  proof cases
    case e
    show ?thesis unfolding e by (rule evm)
  next
    case s
    show ?thesis unfolding s by (rule sol)
  qed
qed

theorem reading_value_invariant_witness:
  "ex_eth_reading \<in> set (allResults ex_cfg ex_env ex_prices)
   \<and> balance ex_eth_reading = Some (1 / 100)
   \<and> valueUSD ex_eth_reading = Some (1 / 100 * price ex_eth_reading)
   \<and> ex_failed_reading \<in> set (allResults ex_cfg env_eth_fails ex_prices)
   \<and> balance ex_failed_reading = None
   \<and> valueUSD ex_failed_reading = None"
proof -
  have h1: "ex_eth_reading \<in> set (allResults ex_cfg ex_env ex_prices)"
    by (simp add: ex_allResults)
  have h2: "ex_failed_reading \<in> set (allResults ex_cfg env_eth_fails ex_prices)"
    by (simp add: all_defs)
  have b1: "balance ex_eth_reading = Some (1 / 100)"
    by (simp add: ex_eth_reading_def)
  have b2: "balance ex_failed_reading = None"
    by (simp add: ex_failed_reading_def)
  from reading_value_invariant[OF h1] reading_value_invariant[OF h2] h1 h2 b1 b2
  show ?thesis by simp
qed

subsection \<open>C7: a failed file write\<close>

text \<open>
  C7 as stated does not hold. When the write of the state file throws, \<open>runCheck\<close> rejects
  with that error and the attempted write is the last event of the cycle: nothing is logged
  for the failure. When the write of the status file throws, \<open>runCheck\<close> rejects as well,
  again with the write as its last event.
\<close>

theorem persistence_failure_counterexample:
  "outcome (runCheck ex_cfg env_save_fails ex_files) = Some ''EACCES''
   \<and> last (events (runCheck ex_cfg env_save_fails ex_files)) =
       WriteStateFile (JsonState \<lparr>lastAlerts = [''evm_ethereum'' \<mapsto> 1700000000000]\<rparr>)
   \<and> outcome (runCheck ex_cfg env_status_fails ex_files) = Some ''ENOSPC''
   \<and> last (events (runCheck ex_cfg env_status_fails ex_files)) =
       WriteStatusFile (statusData ex_cfg env_status_fails ex_prices
         [ex_eth_reading, ex_base_reading, ex_sol_reading])"
  by (simp add: all_defs)

text \<open>
  C7, amended: a failure of the cooldown save or of the status write is not recovered inside
  the cycle: it is not caught and not logged, and \<open>runCheck\<close> rejects with that error.
  Provided the prices arrived, the loop ended and the alert, if any, was sent: when the save
  throws, \<open>runCheck\<close> rejects with that error and the attempted save is the last event of the
  cycle; when the save succeeds and the status write throws, \<open>runCheck\<close> rejects with that
  error and the attempted status write is the last event.
\<close>

theorem persistence_failure_propagates:
  assumes "https_get en (price_url cfg) = Inr ps"
      and "fst (evaluateState cfg (date_now en) (cooldownMs cfg) (allResults cfg en ps)
                  (fst (loadState fs))) = Inr (low, v)"
      and "low = [] \<or> https_post en (bot_token (telegram cfg)) (chat_id (telegram cfg))
             (buildMessage cfg en low) = Inr body"
  shows "(write_state en = WriteFails e left \<longrightarrow>
            outcome (runCheck cfg en fs) = Some e
          \<and> last (events (runCheck cfg en fs)) = WriteStateFile v)
       \<and> (write_state en = Written \<and> write_status en = WriteFails e left' \<longrightarrow>
            outcome (runCheck cfg en fs) = Some e
          \<and> last (events (runCheck cfg en fs)) =
              WriteStatusFile (statusData cfg en ps (allResults cfg en ps)))"
proof -
  from runCheck_after_prices[OF assms(1), of fs] obtain pre where
    run: "runCheck cfg en fs =
       (case fst (evaluateState cfg (date_now en) (cooldownMs cfg) (allResults cfg en ps)
                    (fst (loadState fs))) of
          Inl e \<Rightarrow> \<lparr>outcome = Some e, files_after = fs, events = pre\<rparr>
        | Inr (low, v) \<Rightarrow>
            (case alertAndSave cfg en low v fs of
               (Inl e, fs1, ev5) \<Rightarrow> \<lparr>outcome = Some e, files_after = fs1, events = pre @ ev5\<rparr>
             | (Inr u, fs1, ev5) \<Rightarrow>
                 (case writeStatus en (statusData cfg en ps (allResults cfg en ps)) fs1 of
                    (Inl e, fs2, ev6) \<Rightarrow>
                      \<lparr>outcome = Some e, files_after = fs2, events = pre @ ev5 @ ev6\<rparr>
                  | (Inr u', fs2, ev6) \<Rightarrow>
                      \<lparr>outcome = None, files_after = fs2, events = pre @ ev5 @ ev6\<rparr>)))"
    by blast
  obtain res fs1 ev5 where as: "alertAndSave cfg en low v fs = (res, fs1, ev5)"
    by (cases "alertAndSave cfg en low v fs")
  have one: "outcome (runCheck cfg en fs) = Some e
          \<and> last (events (runCheck cfg en fs)) = WriteStateFile v"
    if w: "write_state en = WriteFails e left"
  proof -
    from alertAndSave_save_fails[OF assms(3) w, of v fs] as
    have res: "res = Inl e" and ne: "ev5 \<noteq> []" and l: "last ev5 = WriteStateFile v"
      by simp_all
    show ?thesis
      unfolding run assms(2) using as res l ne by simp
  qed
  have two: "outcome (runCheck cfg en fs) = Some e
          \<and> last (events (runCheck cfg en fs)) =
              WriteStatusFile (statusData cfg en ps (allResults cfg en ps))"
    if w: "write_state en = Written" "write_status en = WriteFails e left'"
  proof -
    from alertAndSave_save_ok[OF assms(3) w(1), of v fs] as
    have res: "res = Inr ()" by simp
    show ?thesis
      unfolding run assms(2) using as res w(2) by (simp add: writeStatus_def)
  qed
  from one two show ?thesis by blast
qed

theorem persistence_failure_propagates_witness:
  "write_state env_save_fails = WriteFails ''EACCES'' None
   \<and> outcome (runCheck ex_cfg env_save_fails ex_files) = Some ''EACCES''
   \<and> last (events (runCheck ex_cfg env_save_fails ex_files)) =
       WriteStateFile (JsonState \<lparr>lastAlerts = [''evm_ethereum'' \<mapsto> 1700000000000]\<rparr>)
   \<and> write_state env_status_fails = Written
   \<and> write_status env_status_fails = WriteFails ''ENOSPC'' (Some StatusCutOff)
   \<and> outcome (runCheck ex_cfg env_status_fails ex_files) = Some ''ENOSPC''"
proof -
  let ?v = "JsonState \<lparr>lastAlerts = [''evm_ethereum'' \<mapsto> 1700000000000]\<rparr>"
  have a1: "https_get env_save_fails (price_url ex_cfg) = Inr ex_prices"
    by (simp add: env_save_fails_def ex_env_def)
  have a2: "fst (evaluateState ex_cfg (date_now env_save_fails) (cooldownMs ex_cfg)
          (allResults ex_cfg env_save_fails ex_prices) (fst (loadState ex_files)))
       = Inr ([ex_eth_reading], ?v)"
    by (simp add: all_defs)
  have a3: "[ex_eth_reading] = [] \<or>
        https_post env_save_fails (bot_token (telegram ex_cfg)) (chat_id (telegram ex_cfg))
          (buildMessage ex_cfg env_save_fails [ex_eth_reading]) = Inr ''ok''"
    by (simp add: env_save_fails_def ex_env_def)
  have a4: "write_state env_save_fails = WriteFails ''EACCES'' None"
    by (simp add: env_save_fails_def ex_env_def)
  have b1: "https_get env_status_fails (price_url ex_cfg) = Inr ex_prices"
    by (simp add: env_status_fails_def ex_env_def)
  have b2: "fst (evaluateState ex_cfg (date_now env_status_fails) (cooldownMs ex_cfg)
          (allResults ex_cfg env_status_fails ex_prices) (fst (loadState ex_files)))
       = Inr ([ex_eth_reading], ?v)"
    by (simp add: all_defs)
  have b3: "[ex_eth_reading] = [] \<or>
        https_post env_status_fails (bot_token (telegram ex_cfg)) (chat_id (telegram ex_cfg))
          (buildMessage ex_cfg env_status_fails [ex_eth_reading]) = Inr ''ok''"
    by (simp add: env_status_fails_def ex_env_def)
  have b4: "write_state env_status_fails = Written"
    and b5: "write_status env_status_fails = WriteFails ''ENOSPC'' (Some StatusCutOff)"
    by (simp_all add: env_status_fails_def ex_env_def)
  from persistence_failure_propagates[OF a1 a2 a3, of "''EACCES''" None]
       persistence_failure_propagates[OF b1 b2 b3, of "''ENOSPC''" _ "Some StatusCutOff"]
       a4 b4 b5
  show ?thesis by blast
qed

subsection \<open>C8: readings without a value\<close>

text \<open>
  C8: a reading whose \<open>valueUSD\<close> is absent is never on the alert list, and leaving it out of
  the batch changes neither the alert list nor the resulting cooldown state, for every
  threshold, cooldown, time and prior state, and wherever it stands in the batch.
\<close>

theorem failed_reading_never_alerts:
  assumes "valueUSD r = None"
  shows "r \<notin> set (fst (evaluate cfg now cdMs (rs1 @ r # rs2) [] st))
       \<and> fst (evaluate cfg now cdMs (rs1 @ r # rs2) [] st) =
           fst (evaluate cfg now cdMs (rs1 @ rs2) [] st)
       \<and> fst (snd (evaluate cfg now cdMs (rs1 @ r # rs2) [] st)) =
           fst (snd (evaluate cfg now cdMs (rs1 @ rs2) [] st))"
proof -
  have nl: "\<not> isLow cfg r"
    using assms by (simp add: isLow_def)
  have ne: "\<And>s. \<not> eligible cfg now cdMs s r"
    using nl by (simp add: eligible_def)
  have "r \<notin> set (fst (evaluate cfg now cdMs (rs1 @ r # rs2) [] st))"
    using evaluate_low_members[of r cfg now cdMs "rs1 @ r # rs2" "[]" st] nl by auto
  moreover have "fst (evaluate cfg now cdMs (rs1 @ r # rs2) [] st) =
           fst (evaluate cfg now cdMs (rs1 @ rs2) [] st)"
    by (simp only: evaluate_append[of cfg now cdMs rs1] evaluate_step_not_eligible[OF ne])
  moreover have "fst (snd (evaluate cfg now cdMs (rs1 @ r # rs2) [] st)) =
           fst (snd (evaluate cfg now cdMs (rs1 @ rs2) [] st))"
    by (simp only: evaluate_append[of cfg now cdMs rs1] evaluate_step_not_eligible[OF ne])
  ultimately show ?thesis by blast
qed

theorem failed_reading_never_alerts_witness:
  "valueUSD ex_failed_reading = None
   \<and> ex_failed_reading \<notin> set (fst (evaluate ex_cfg 1700000000000 (cooldownMs ex_cfg)
         ([ex_sol_reading] @ ex_failed_reading # [ex_eth_reading]) []
         \<lparr>lastAlerts = Map.empty\<rparr>))
   \<and> fst (evaluate ex_cfg 1700000000000 (cooldownMs ex_cfg)
         ([ex_sol_reading] @ ex_failed_reading # [ex_eth_reading]) []
         \<lparr>lastAlerts = Map.empty\<rparr>) = [ex_eth_reading]"
proof -
  have h: "valueUSD ex_failed_reading = None"
    by (simp add: ex_failed_reading_def)
  have e: "fst (evaluate ex_cfg 1700000000000 (cooldownMs ex_cfg)
         ([ex_sol_reading] @ [ex_eth_reading]) [] \<lparr>lastAlerts = Map.empty\<rparr>) = [ex_eth_reading]"
    by (simp add: all_defs)
  note T = failed_reading_never_alerts[OF h, of ex_cfg 1700000000000 "cooldownMs ex_cfg"
         "[ex_sol_reading]" "[ex_eth_reading]" "\<lparr>lastAlerts = Map.empty\<rparr>"]
  from T have "fst (evaluate ex_cfg 1700000000000 (cooldownMs ex_cfg)
         ([ex_sol_reading] @ ex_failed_reading # [ex_eth_reading]) []
         \<lparr>lastAlerts = Map.empty\<rparr>) = [ex_eth_reading]"
    unfolding e by blast
  with T h show ?thesis by blast
qed

subsection \<open>C9: loading a missing or corrupt state file\<close>

text \<open>
  C9 as stated does not hold for every corrupt record. A state file that holds \<open>{}\<close> parses,
  so \<open>loadState\<close> returns that value and not the empty cooldown map; the cycle does not proceed
  as if no alert had ever been sent: at the Ethereum reading, which is below the threshold,
  \<open>state.lastAlerts[r.key]\<close> throws and \<open>runCheck\<close> rejects without sending, saving or writing
  anything, whereas with a stored empty map it sends the alert, saves and writes the status.
\<close>

theorem unchecked_state_counterexample:
  "JSON_parse (StateJson JsonNoAlerts) = Inr JsonNoAlerts
   \<and> fst (loadState ex_files_no_alerts) = JsonNoAlerts
   \<and> JsonNoAlerts \<noteq> JsonState \<lparr>lastAlerts = Map.empty\<rparr>
   \<and> outcome (runCheck ex_cfg ex_env ex_files_no_alerts) =
       Some ''Cannot read properties of undefined''
   \<and> outputs (events (runCheck ex_cfg ex_env ex_files_no_alerts)) = []
   \<and> outcome (runCheck ex_cfg ex_env ex_files_empty_map) = None
   \<and> outputs (events (runCheck ex_cfg ex_env ex_files_empty_map)) =
       [TelegramPost ''tok'' ''42'' (buildMessage ex_cfg ex_env [ex_eth_reading]),
        WriteStateFile (JsonState \<lparr>lastAlerts = [''evm_ethereum'' \<mapsto> 1700000000000]\<rparr>),
        WriteStatusFile (statusData ex_cfg ex_env ex_prices
          [ex_eth_reading, ex_base_reading, ex_sol_reading])]"
  by (simp add: all_defs outputs_def)

text \<open>
  C9, amended: \<open>loadState\<close> always returns. When the file is missing or unreadable, or holds
  text that does not parse as JSON, it returns the state with no entries, and the cycle has
  the same events and the same outcome as with a state file that holds the empty map.
\<close>

theorem load_missing_or_unparsable:
  assumes "state_json fs = None \<or> state_json fs = Some Unparsable"
  shows "loadState fs = (JsonState \<lparr>lastAlerts = Map.empty\<rparr>, [ReadStateFile])
       \<and> events (runCheck cfg en fs) =
           events (runCheck cfg en
             (fs\<lparr>state_json := Some (StateJson (JsonState \<lparr>lastAlerts = Map.empty\<rparr>))\<rparr>))
       \<and> outcome (runCheck cfg en fs) =
           outcome (runCheck cfg en
             (fs\<lparr>state_json := Some (StateJson (JsonState \<lparr>lastAlerts = Map.empty\<rparr>))\<rparr>))"
proof -
  let ?fs' = "fs\<lparr>state_json := Some (StateJson (JsonState \<lparr>lastAlerts = Map.empty\<rparr>))\<rparr>"
  have l: "loadState fs = (JsonState \<lparr>lastAlerts = Map.empty\<rparr>, [ReadStateFile])"
    using assms by (auto simp: loadState_def readFileSync_def JSON_parse_def)
  have l': "loadState ?fs' = (JsonState \<lparr>lastAlerts = Map.empty\<rparr>, [ReadStateFile])"
    by (simp add: loadState_def readFileSync_def JSON_parse_def)
  have "events (runCheck cfg en fs) = events (runCheck cfg en ?fs')
      \<and> outcome (runCheck cfg en fs) = outcome (runCheck cfg en ?fs')"
    unfolding runCheck_def l l' Let_def
    by (simp add: alertAndSave_def saveState_def writeStatus_def
             split: prod.splits sum.splits write_result.splits if_splits)
  with l show ?thesis by blast
qed

theorem load_missing_or_unparsable_witness:
  "state_json ex_files = None
   \<and> loadState ex_files = (JsonState \<lparr>lastAlerts = Map.empty\<rparr>, [ReadStateFile])
   \<and> loadState (ex_files\<lparr>state_json := Some Unparsable\<rparr>) =
       (JsonState \<lparr>lastAlerts = Map.empty\<rparr>, [ReadStateFile])"
proof -
  have h1: "state_json ex_files = None \<or> state_json ex_files = Some Unparsable"
    by (simp add: ex_files_def)
  have h2: "state_json (ex_files\<lparr>state_json := Some Unparsable\<rparr>) = None
      \<or> state_json (ex_files\<lparr>state_json := Some Unparsable\<rparr>) = Some Unparsable"
    by simp
  have h: "state_json ex_files = None"
    by (simp add: ex_files_def)
  from load_missing_or_unparsable[OF h1, of ex_cfg ex_env]
       load_missing_or_unparsable[OF h2, of ex_cfg ex_env] h
  show ?thesis by blast
qed

subsection \<open>C10: the cooldown map never shrinks\<close>

text \<open>
  C10: whenever a cycle passes a state to \<open>saveState\<close>, every key of the loaded state is a key
  of the saved state, and the saved entry of every key is either the loaded one or the time
  of the cycle; no entry is removed, also not those of chains that are no longer configured.
\<close>

theorem cooldown_map_never_shrinks:
  assumes "WriteStateFile v' \<in> set (events (runCheck cfg en fs))"
  shows "dom (alerts (fst (loadState fs))) \<subseteq> dom (alerts v')
       \<and> (\<forall>k. alerts v' k = alerts (fst (loadState fs)) k
              \<or> alerts v' k = Some (date_now en))"
proof -
  from runCheck_state_write[OF assms] obtain low where
    "fst (evaluateState cfg (date_now en) (cooldownMs cfg)
            (allResults cfg en (projr (https_get en (price_url cfg))))
            (fst (loadState fs))) = Inr (low, v')"
    by blast
  then have pw: "\<forall>k. alerts v' k = alerts (fst (loadState fs)) k
              \<or> alerts v' k = Some (date_now en)"
    using evaluateState_alerts by blast
  then have "dom (alerts (fst (loadState fs))) \<subseteq> dom (alerts v')"
    by (metis domD domI subsetI)
  with pw show ?thesis by blast
qed

theorem cooldown_map_never_shrinks_witness:
  "WriteStateFile (JsonState \<lparr>lastAlerts = [''evm_gone'' \<mapsto> 5, ''solana'' \<mapsto> 7,
                                           ''evm_ethereum'' \<mapsto> 1700000000000]\<rparr>)
     \<in> set (events (runCheck ex_cfg ex_env ex_files_prior))
   \<and> alerts (fst (loadState ex_files_prior)) = [''evm_gone'' \<mapsto> 5, ''solana'' \<mapsto> 7]
   \<and> dom (alerts (fst (loadState ex_files_prior)))
       \<subseteq> dom [''evm_gone'' \<mapsto> 5::real, ''solana'' \<mapsto> 7, ''evm_ethereum'' \<mapsto> 1700000000000]"
proof -
  let ?v = "JsonState \<lparr>lastAlerts = [''evm_gone'' \<mapsto> 5, ''solana'' \<mapsto> 7,
                                      ''evm_ethereum'' \<mapsto> 1700000000000]\<rparr>"
  have h: "WriteStateFile ?v \<in> set (events (runCheck ex_cfg ex_env ex_files_prior))"
    by (simp add: all_defs)
  have l: "alerts (fst (loadState ex_files_prior)) = [''evm_gone'' \<mapsto> 5, ''solana'' \<mapsto> 7]"
    by (simp add: all_defs alerts_def)
  have a: "alerts ?v = [''evm_gone'' \<mapsto> 5, ''solana'' \<mapsto> 7, ''evm_ethereum'' \<mapsto> 1700000000000]"
    by (simp add: alerts_def)
  from cooldown_map_never_shrinks[OF h] have
    "dom (alerts (fst (loadState ex_files_prior))) \<subseteq> dom (alerts ?v)"
    by blast
  with h l show ?thesis unfolding a by blast
qed

end
